theory Spec2Isabelle
  imports Complex_Main
begin

section \<open>JavaScript values\<close>

text \<open>
  The server is a Node.js program: message fields are dynamically typed, so the model
  keeps the values as the language has them. A number is an IEEE double; it is modelled
  by its mathematical value (\<open>Fin r\<close>) together with the three special values. Every
  double is such a value, comparison of doubles is exact, and \<open>Math.max\<close>/\<open>Math.min\<close>
  select one of their arguments, so the watermark logic is reproduced exactly. Signed zero
  is not distinguished, and the one arithmetic expression of the program
  (\<open>(device.avg + vol) / 2\<close>) is computed without rounding.
\<close>

datatype jsnum = NaN | NegInf | Fin real | PosInf

text \<open>
  A parsed JSON text, plus \<open>undefined\<close> for an absent property. An object is the list
  of its own properties (\<open>JSON.parse\<close> yields distinct keys).
\<close>

datatype jsval =
    JUndefined
  | JNull
  | JBool bool
  | JNumber jsnum
  | JString string
  | JArray "jsval list"
  | JObject "(string \<times> jsval) list"

datatype js_error = TypeError | SyntaxError

text \<open>The relational operators on numbers: every comparison with \<open>NaN\<close> is false.\<close>

fun js_lt :: "jsnum \<Rightarrow> jsnum \<Rightarrow> bool" where
  "js_lt NaN y = False"
| "js_lt x NaN = False"
| "js_lt NegInf NegInf = False"
| "js_lt NegInf y = True"
| "js_lt (Fin x) (Fin y) = (x < y)"
| "js_lt (Fin x) PosInf = True"
| "js_lt (Fin x) NegInf = False"
| "js_lt PosInf y = False"

fun js_le :: "jsnum \<Rightarrow> jsnum \<Rightarrow> bool" where
  "js_le NaN y = False"
| "js_le x NaN = False"
| "js_le NegInf y = True"
| "js_le (Fin x) (Fin y) = (x \<le> y)"
| "js_le (Fin x) PosInf = True"
| "js_le (Fin x) NegInf = False"
| "js_le PosInf PosInf = True"
| "js_le PosInf y = False"

definition js_gt :: "jsnum \<Rightarrow> jsnum \<Rightarrow> bool" where
  "js_gt x y = js_lt y x"

definition js_ge :: "jsnum \<Rightarrow> jsnum \<Rightarrow> bool" where
  "js_ge x y = js_le y x"

definition isNaN :: "jsnum \<Rightarrow> bool" where
  "isNaN x = (x = NaN)"

text \<open>\<open>Math.max\<close> and \<open>Math.min\<close> of two numbers: \<open>NaN\<close> if either argument is.\<close>

definition Math_max :: "jsnum \<Rightarrow> jsnum \<Rightarrow> jsnum" where
  "Math_max x y = (if x = NaN \<or> y = NaN then NaN else if js_lt x y then y else x)"

definition Math_min :: "jsnum \<Rightarrow> jsnum \<Rightarrow> jsnum" where
  "Math_min x y = (if x = NaN \<or> y = NaN then NaN else if js_lt y x then y else x)"

fun num_add :: "jsnum \<Rightarrow> jsnum \<Rightarrow> jsnum" where
  "num_add NaN y = NaN"
| "num_add x NaN = NaN"
| "num_add (Fin x) (Fin y) = Fin (x + y)"
| "num_add PosInf NegInf = NaN"
| "num_add NegInf PosInf = NaN"
| "num_add PosInf y = PosInf"
| "num_add NegInf y = NegInf"
| "num_add (Fin x) y = y"

fun num_half :: "jsnum \<Rightarrow> jsnum" where
  "num_half (Fin x) = Fin (x / 2)"
| "num_half x = x"

subsection \<open>Library functions of the language\<close>

text \<open>
  The text algorithms of ECMAScript (parsing a number out of a string, printing a number)
  are not code of this program. They are parameters of the model: every theorem holds
  for whatever these functions compute.
  \<^item> \<open>parseInt_text\<close>, \<open>parseFloat_text\<close>: \<open>parseInt\<close> and \<open>parseFloat\<close> of a string;
  \<^item> \<open>toNumber_text\<close>: the conversion of a string to a number (as in \<open>"3" < 1\<close>);
  \<^item> \<open>toString_num\<close>: the conversion of a number to a string.
\<close>

record builtins =
  parseInt_text :: "string \<Rightarrow> jsnum"
  parseFloat_text :: "string \<Rightarrow> jsnum"
  toNumber_text :: "string \<Rightarrow> jsnum"
  toString_num :: "jsnum \<Rightarrow> string"

text \<open>
  The string of a value, as a template literal, \<open>parseInt\<close>, \<open>parseFloat\<close> and the
  operators \<open><\<close> and \<open>+\<close> obtain it; \<open>Inl\<close> is the exception raised. The values are
  parsed JSON, so a property is never a function:
  \<^item> an object with an own property \<open>toString\<close> has no string: that property is not
    callable, and the inherited \<open>valueOf\<close> returns the object itself, so the conversion
    raises a \<open>TypeError\<close>; any other object has the inherited string;
  \<^item> an array is the strings of its elements joined by commas, \<open>null\<close> counting as the
    empty string; it raises where an element does.
\<close>

fun to_string :: "builtins \<Rightarrow> jsval \<Rightarrow> js_error + string"
  and join_elements :: "builtins \<Rightarrow> jsval list \<Rightarrow> js_error + string" where
  "to_string b JUndefined = Inr ''undefined''"
| "to_string b JNull = Inr ''null''"
| "to_string b (JBool t) = Inr (if t then ''true'' else ''false'')"
| "to_string b (JNumber n) = Inr (toString_num b n)"
| "to_string b (JString s) = Inr s"
| "to_string b (JArray xs) = join_elements b xs"
| "to_string b (JObject kvs) =
     (if map_of kvs ''toString'' = None then Inr ''[object Object]'' else Inl TypeError)"
| "join_elements b [] = Inr []"
| "join_elements b (x # xs) =
     (case (if x = JNull \<or> x = JUndefined then Inr [] else to_string b x) of
        Inl e \<Rightarrow> Inl e
      | Inr s \<Rightarrow>
          if xs = [] then Inr s
          else (case join_elements b xs of Inl e \<Rightarrow> Inl e | Inr t \<Rightarrow> Inr (s @ '','' @ t)))"

text \<open>
  \<open>parseInt(v)\<close> is \<open>parseInt\<close> of the string of \<open>v\<close>. Where the printed form is
  known the result is written out:
  \<^item> a number of magnitude from \<open>10^-6\<close> up to, not including, \<open>10^21\<close> prints in
    decimal notation without an exponent, of which \<open>parseInt\<close> reads the digits before
    the point: the number truncated towards zero (\<open>6.5\<close> gives \<open>6\<close>); zero prints as
    \<open>0\<close>;
  \<^item> \<open>NaN\<close>, the infinities, \<open>undefined\<close>, \<open>null\<close> and the booleans print as words, in
    which \<open>parseInt\<close> finds no digit.
  Any other number prints with an exponent and goes through the two text functions.
\<close>

definition is_integer :: "real \<Rightarrow> bool" where
  "is_integer r = (r = of_int \<lfloor>r\<rfloor>)"

definition toward_zero :: "real \<Rightarrow> real" where
  "toward_zero r = (if 0 \<le> r then of_int \<lfloor>r\<rfloor> else of_int \<lceil>r\<rceil>)"

fun parseInt :: "builtins \<Rightarrow> jsval \<Rightarrow> js_error + jsnum" where
  "parseInt b JUndefined = Inr NaN"
| "parseInt b JNull = Inr NaN"
| "parseInt b (JBool t) = Inr NaN"
| "parseInt b (JNumber (Fin r)) =
     (if r = 0 \<or> (1 / 10 ^ 6 \<le> \<bar>r\<bar> \<and> \<bar>r\<bar> < 10 ^ 21) then Inr (Fin (toward_zero r))
      else Inr (parseInt_text b (toString_num b (Fin r))))"
| "parseInt b (JNumber n) = Inr NaN"
| "parseInt b (JString s) = Inr (parseInt_text b s)"
| "parseInt b v =
     (case to_string b v of Inl e \<Rightarrow> Inl e | Inr s \<Rightarrow> Inr (parseInt_text b s))"

text \<open>
  \<open>parseFloat(v)\<close>: a number prints to a text that parses back to the same number.
\<close>

fun parseFloat :: "builtins \<Rightarrow> jsval \<Rightarrow> js_error + jsnum" where
  "parseFloat b JUndefined = Inr NaN"
| "parseFloat b JNull = Inr NaN"
| "parseFloat b (JBool t) = Inr NaN"
| "parseFloat b (JNumber n) = Inr n"
| "parseFloat b (JString s) = Inr (parseFloat_text b s)"
| "parseFloat b v =
     (case to_string b v of Inl e \<Rightarrow> Inl e | Inr s \<Rightarrow> Inr (parseFloat_text b s))"

text \<open>\<open>ToNumber\<close>, as the relational operators apply it to an operand.\<close>

fun to_number :: "builtins \<Rightarrow> jsval \<Rightarrow> js_error + jsnum" where
  "to_number b JUndefined = Inr NaN"
| "to_number b JNull = Inr (Fin 0)"
| "to_number b (JBool t) = Inr (Fin (if t then 1 else 0))"
| "to_number b (JNumber n) = Inr n"
| "to_number b (JString s) = Inr (toNumber_text b s)"
| "to_number b v =
     (case to_string b v of Inl e \<Rightarrow> Inl e | Inr s \<Rightarrow> Inr (toNumber_text b s))"

text \<open>\<open>ToBoolean\<close>: the falsy values are listed, everything else is truthy.\<close>

fun truthy :: "jsval \<Rightarrow> bool" where
  "truthy JUndefined = False"
| "truthy JNull = False"
| "truthy (JBool t) = t"
| "truthy (JNumber NaN) = False"
| "truthy (JNumber (Fin r)) = (r \<noteq> 0)"
| "truthy (JNumber n) = True"
| "truthy (JString s) = (s \<noteq> [])"
| "truthy v = True"

text \<open>
  Reading a property of a parsed message (\<open>data.type\<close>, \<open>data.deviceId\<close>, ...): an own
  property of an object, \<open>undefined\<close> when absent or when the value is a primitive or an
  array (none of the names the program reads is inherited), a \<open>TypeError\<close> on \<open>null\<close>.
\<close>

fun get_prop :: "jsval \<Rightarrow> string \<Rightarrow> js_error + jsval" where
  "get_prop (JObject kvs) k = Inr (case map_of kvs k of None \<Rightarrow> JUndefined | Some v \<Rightarrow> v)"
| "get_prop JNull k = Inl TypeError"
| "get_prop JUndefined k = Inl TypeError"
| "get_prop v k = Inr JUndefined"

text \<open>
  \<open>parseFloat(x.toFixed(2))\<close> of a number \<open>x\<close>. \<open>toFixed(2)\<close> prints the integer \<open>n\<close>
  for which \<open>n / 100\<close> is nearest to the magnitude of \<open>x\<close> (the larger one on a tie) with
  two decimals and the sign of \<open>x\<close>; from \<open>10^21\<close> on, and for \<open>NaN\<close> and the
  infinities, it prints \<open>x\<close> as it is. \<open>parseFloat\<close> reads the printed number back.
\<close>

fun toFixed2_parsed :: "jsnum \<Rightarrow> jsnum" where
  "toFixed2_parsed (Fin x) =
     (if 10 ^ 21 \<le> \<bar>x\<bar> then Fin x
      else Fin (sgn x * real_of_int \<lfloor>\<bar>x\<bar> * 100 + 1 / 2\<rfloor> / 100))"
| "toFixed2_parsed x = x"

text \<open>\<open>input.split(' ')\<close>: empty pieces are kept.\<close>

fun split_sp :: "string \<Rightarrow> string list" where
  "split_sp [] = [[]]"
| "split_sp (c # cs) =
     (if c = CHR '' '' then [] # split_sp cs
      else (case split_sp cs of [] \<Rightarrow> [[c]] | p # ps \<Rightarrow> (c # p) # ps))"

section \<open>The server's state\<close>

text \<open>The configuration constants of the source.\<close>

definition DEVICE_TIMEOUT :: int where
  "DEVICE_TIMEOUT = 10000"

definition CLOSE_TIMEOUT :: int where
  "CLOSE_TIMEOUT = 5000"

text \<open>
  A device record of \<open>deviceMap\<close>. \<open>vol\<close>, \<open>max\<close> and \<open>min\<close> only ever receive the
  results of \<open>parseFloat\<close>, \<open>Math.max\<close> and \<open>Math.min\<close>, hence numbers; \<open>avg\<close> receives
  \<open>data.avg\<close> as it came, hence any value; \<open>lastUpdate\<close> is a \<open>Date.now()\<close>, in
  milliseconds.
\<close>

record device =
  deviceId :: nat
  vol :: jsnum
  avg :: jsval
  maxv :: jsnum
  minv :: jsnum
  con :: bool
  lastUpdate :: int

datatype readyState = CONNECTING | OPEN | CLOSING | CLOSED

record stats_entry =
  stat_deviceId :: nat
  stat_max :: jsnum
  stat_avg :: jsnum
  stat_min :: jsnum

text \<open>What a fan-out sends: the device table, the start signal or the final statistics.\<close>

datatype payload =
    Snapshot "device list"
  | StartMonitor
  | EndStatistics "stats_entry list"

text \<open>
  The global variables of the program and the part of its environment they act on:
  \<^item> \<open>deviceMap\<close>: the \<open>Map\<close>, in insertion order;
  \<^item> \<open>isTerminated\<close>, \<open>isServerClosing\<close>: the two flags;
  \<^item> \<open>deviceCheckInterval\<close>: whether the interval timer is scheduled;
  \<^item> \<open>closeTimeoutTimer\<close>: the time at which the pending close timer fires, if one is
    pending;
  \<^item> \<open>clients\<close>: \<open>wss.clients\<close>, each socket with its \<open>readyState\<close>;
  \<^item> \<open>drainClients\<close>, \<open>closedClients\<close>, \<open>drainListeners\<close>: the array and the set that
    \<open>handleTerminateProcess\<close> captures, and the sockets on which it has put its
    \<open>close\<close>/\<open>error\<close> listeners;
  \<^item> \<open>wssCloseCalls\<close>: how often \<open>closeWebSocketServer\<close> has called \<open>wss.close\<close>;
  \<^item> \<open>rl_closed\<close>: \<open>rl.closed\<close>;
  \<^item> \<open>exited\<close>: the status passed to \<open>process.exit\<close>, once it has been called;
  \<^item> \<open>sent\<close>: every fan-out so far, with the sockets that were \<open>OPEN\<close> and got it.
\<close>

record state =
  deviceMap :: "(nat \<times> device) list"
  isTerminated :: bool
  isServerClosing :: bool
  deviceCheckInterval :: bool
  closeTimeoutTimer :: "int option"
  clients :: "(nat \<times> readyState) list"
  drainClients :: "nat list"
  closedClients :: "nat list"
  drainListeners :: "nat list"
  wssCloseCalls :: nat
  rl_closed :: bool
  exited :: "int option"
  sent :: "(payload \<times> nat list) list"

definition device_ids :: "nat list" where
  "device_ids = [1, 2, 3, 4, 5, 6]"

text \<open>The start of the program: six devices, offline, \<open>max = 0\<close>, \<open>min = 100\<close>.\<close>

definition new_device :: "int \<Rightarrow> nat \<Rightarrow> device" where
  "new_device now i =
     \<lparr>deviceId = i, vol = Fin 0, avg = JNumber (Fin 0), maxv = Fin 0, minv = Fin 100,
      con = False, lastUpdate = now\<rparr>"

definition init :: "int \<Rightarrow> state" where
  "init now =
     \<lparr>deviceMap = map (\<lambda>i. (i, new_device now i)) device_ids,
      isTerminated = False, isServerClosing = False, deviceCheckInterval = True,
      closeTimeoutTimer = None, clients = [], drainClients = [], closedClients = [],
      drainListeners = [], wssCloseCalls = 0, rl_closed = False, exited = None,
      sent = []\<rparr>"

subsection \<open>The device map\<close>

text \<open>
  \<open>deviceMap.get(k)\<close> compares keys without coercion: only a number that is one of the
  stored integers finds a device. The result is the stored object, here the device with
  the key it is stored under; \<open>None\<close> is \<open>undefined\<close>.
\<close>

definition key_of :: "jsnum \<Rightarrow> nat option" where
  "key_of n = (case n of Fin r \<Rightarrow> if is_integer r \<and> 0 \<le> r then Some (nat \<lfloor>r\<rfloor>) else None
               | _ \<Rightarrow> None)"

definition deviceMap_get :: "(nat \<times> device) list \<Rightarrow> jsnum \<Rightarrow> (nat \<times> device) option" where
  "deviceMap_get m n =
     (case key_of n of
        None \<Rightarrow> None
      | Some k \<Rightarrow> (case map_of m k of None \<Rightarrow> None | Some d \<Rightarrow> Some (k, d)))"

definition deviceMap_get_val :: "(nat \<times> device) list \<Rightarrow> jsval \<Rightarrow> (nat \<times> device) option" where
  "deviceMap_get_val m v = (case v of JNumber n \<Rightarrow> deviceMap_get m n | _ \<Rightarrow> None)"

text \<open>Assigning to fields of the object stored under key \<open>k\<close>.\<close>

definition modify_device ::
  "nat \<Rightarrow> (device \<Rightarrow> device) \<Rightarrow> (nat \<times> device) list \<Rightarrow> (nat \<times> device) list" where
  "modify_device k f m = map (\<lambda>(j, d). if j = k then (j, f d) else (j, d)) m"

subsection \<open>Fan-out\<close>

definition open_clients :: "state \<Rightarrow> nat list" where
  "open_clients s = map fst (filter (\<lambda>(c, r). r = OPEN) (clients s))"

definition broadcast :: "state \<Rightarrow> state" where
  "broadcast s =
     (if isServerClosing s then s
      else s\<lparr>sent := sent s @ [(Snapshot (map snd (deviceMap s)), open_clients s)]\<rparr>)"

definition broadcastStartMonitor :: "state \<Rightarrow> state" where
  "broadcastStartMonitor s =
     (if isServerClosing s \<or> isTerminated s then s
      else s\<lparr>sent := sent s @ [(StartMonitor, open_clients s)]\<rparr>)"

subsection \<open>Shutdown\<close>

definition forceExit :: "state \<Rightarrow> state" where
  "forceExit s = s\<lparr>closeTimeoutTimer := None, exited := Some 0\<rparr>"

text \<open>
  \<open>closeWebSocketServer\<close> calls \<open>wss.close\<close> with a callback and adds a \<open>close\<close>
  listener; both run later, when the library reports (\<open>wss_close_callback\<close>,
  \<open>wss_close_listener\<close> below).
\<close>

definition closeWebSocketServer :: "state \<Rightarrow> state" where
  "closeWebSocketServer s = s\<lparr>wssCloseCalls := Suc (wssCloseCalls s)\<rparr>"

definition checkAllClientsClosed :: "state \<Rightarrow> state" where
  "checkAllClientsClosed s =
     (if length (closedClients s) = length (drainClients s) then closeWebSocketServer s
      else s)"

definition closedClients_add :: "nat \<Rightarrow> state \<Rightarrow> state" where
  "closedClients_add c s = s\<lparr>closedClients := List.insert c (closedClients s)\<rparr>"

text \<open>The body of \<open>clients.forEach\<close> in \<open>handleTerminateProcess\<close>, for one socket.\<close>

definition drain_client :: "nat \<times> readyState \<Rightarrow> state \<Rightarrow> state" where
  "drain_client cr s =
     (if snd cr = OPEN then
        s\<lparr>clients := map (\<lambda>(c, r). if c = fst cr then (c, CLOSING) else (c, r)) (clients s),
          drainListeners := drainListeners s @ [fst cr]\<rparr>
      else checkAllClientsClosed (closedClients_add (fst cr) s))"

text \<open>
  \<open>handleTerminateProcess\<close> from \<open>clearInterval\<close> on: what runs once the flag is set and
  the line has been logged.
\<close>

definition drain_sessions :: "int \<Rightarrow> state \<Rightarrow> state" where
  "drain_sessions now s =
     (let s1 = s\<lparr>deviceCheckInterval := False, closeTimeoutTimer := None,
                drainClients := map fst (clients s), closedClients := []\<rparr>
      in if clients s = [] then closeWebSocketServer s1
         else (fold drain_client (clients s) s1)
                \<lparr>closeTimeoutTimer := Some (now + CLOSE_TIMEOUT)\<rparr>)"

text \<open>
  \<open>handleTerminateProcess(deviceId)\<close>. After setting the flag it logs a line that holds
  \<open>${deviceId}\<close>: the string of the argument (\<open>deviceId'\<close> here), whose conversion
  raises for a value without one. Then the timers, the sockets and the close timer have
  not been touched.
\<close>

definition handleTerminateProcess ::
  "builtins \<Rightarrow> int \<Rightarrow> jsval \<Rightarrow> state \<Rightarrow> js_error option \<times> state" where
  "handleTerminateProcess b now deviceId' s =
     (if isServerClosing s then (None, s)
      else
        let s0 = s\<lparr>isServerClosing := True\<rparr>
        in case to_string b deviceId' of
             Inl e \<Rightarrow> (Some e, s0)
           | Inr line \<Rightarrow> (None, drain_sessions now s0))"

text \<open>
  The two labels the program passes for a shutdown without a device: the one of the
  console and the one of a message without \<open>deviceId\<close>. Their text only reaches the log.
\<close>

definition console_origin :: jsval where
  "console_origin = JString ''console''"

definition unknown_origin :: jsval where
  "unknown_origin = JString ''unknown''"

text \<open>\<open>closeServer\<close>: the label is a string, so the call returns normally.\<close>

definition closeServer :: "builtins \<Rightarrow> int \<Rightarrow> state \<Rightarrow> state" where
  "closeServer b now s =
     (if isServerClosing s then s else snd (handleTerminateProcess b now console_origin s))"

text \<open>The \<open>close\<close> listener of the console, and \<open>rl.close()\<close>, which runs it.\<close>

definition on_rl_close :: "builtins \<Rightarrow> int \<Rightarrow> state \<Rightarrow> state" where
  "on_rl_close b now s = (if \<not> isServerClosing s then closeServer b now s else s)"

definition rl_close :: "builtins \<Rightarrow> int \<Rightarrow> state \<Rightarrow> state" where
  "rl_close b now s =
     (if rl_closed s then s else on_rl_close b now (s\<lparr>rl_closed := True\<rparr>))"

definition closeReadline :: "builtins \<Rightarrow> int \<Rightarrow> state \<Rightarrow> state" where
  "closeReadline b now s = (if \<not> rl_closed s then rl_close b now s else forceExit s)"

definition wss_close_callback :: "builtins \<Rightarrow> int \<Rightarrow> bool \<Rightarrow> state \<Rightarrow> state" where
  "wss_close_callback b now err s = (if err then forceExit s else closeReadline b now s)"

definition wss_close_listener :: "builtins \<Rightarrow> int \<Rightarrow> state \<Rightarrow> state" where
  "wss_close_listener b now s = closeReadline b now s"

text \<open>The callback of the close timer.\<close>

definition on_close_timeout :: "state \<Rightarrow> state" where
  "on_close_timeout s = forceExit s"

text \<open>The handlers of \<open>uncaughtException\<close> and \<open>unhandledRejection\<close>.\<close>

definition on_uncaughtException :: "builtins \<Rightarrow> int \<Rightarrow> state \<Rightarrow> state" where
  "on_uncaughtException b now s =
     (if isServerClosing s then forceExit s else closeServer b now s)"

definition on_unhandledRejection :: "builtins \<Rightarrow> int \<Rightarrow> state \<Rightarrow> state" where
  "on_unhandledRejection b now s =
     (if isServerClosing s then forceExit s else closeServer b now s)"

section \<open>The handlers\<close>

text \<open>
  A handler that can raise returns the exception, if any, next to the state: what it
  assigned before raising stays assigned.
\<close>

subsection \<open>Readings\<close>

text \<open>
  The guard of \<open>updateDevice\<close>,
  \<open>!data.deviceId || data.deviceId < 1 || data.deviceId > 6\<close>: true when the message is
  rejected. The comparisons convert their operand to a number.
\<close>

definition updateDevice_rejects :: "builtins \<Rightarrow> jsval \<Rightarrow> js_error + bool" where
  "updateDevice_rejects b v =
     (if \<not> truthy v then Inr True
      else case to_number b v of
             Inl e \<Rightarrow> Inl e
           | Inr n \<Rightarrow> Inr (js_lt n (Fin 1) \<or> js_gt n (Fin 6)))"

text \<open>
  \<open>updateDevice\<close>: its first assignment is the statement that raises when the lookup
  found nothing, so an exception leaves the state as it was. The result carries the
  returned boolean.
\<close>

definition updateDevice :: "builtins \<Rightarrow> int \<Rightarrow> jsval \<Rightarrow> state \<Rightarrow> js_error + (bool \<times> state)" where
  "updateDevice b now data s =
     (case get_prop data ''deviceId'' of
        Inl e \<Rightarrow> Inl e
      | Inr did \<Rightarrow>
          (case updateDevice_rejects b did of
             Inl e \<Rightarrow> Inl e
           | Inr True \<Rightarrow> Inr (False, s)
           | Inr False \<Rightarrow>
               (case get_prop data ''vol'' of
                  Inl e \<Rightarrow> Inl e
                | Inr v \<Rightarrow>
                    (case parseFloat b v of
                       Inl e \<Rightarrow> Inl e
                     | Inr newVol \<Rightarrow>
                         (case deviceMap_get_val (deviceMap s) did of
                            None \<Rightarrow> Inl TypeError
                          | Some (k, device) \<Rightarrow>
                              (case get_prop data ''avg'' of
                                 Inl e \<Rightarrow> Inl e
                               | Inr a \<Rightarrow>
                                   Inr (True,
                                     s\<lparr>deviceMap :=
                                         modify_device k
                                           (\<lambda>d. d\<lparr>vol := newVol, avg := a,
                                                   maxv := Math_max (maxv d) newVol,
                                                   minv := Math_min (minv d) newVol,
                                                   con := True, lastUpdate := now\<rparr>)
                                           (deviceMap s)\<rparr>)))))))"

subsection \<open>The termination report\<close>

text \<open>
  One record of \<open>statsData\<close>: \<open>parseFloat(x.toFixed(2))\<close> of the three fields.
  \<open>toFixed\<close> is a method of numbers only: on any other \<open>avg\<close> the call raises.
  (\<open>max\<close> and \<open>min\<close> are numbers, and evaluating them has no effect.)
\<close>

definition device_stats :: "nat \<Rightarrow> device \<Rightarrow> js_error + stats_entry" where
  "device_stats i d =
     (case avg d of
        JNumber a \<Rightarrow>
          Inr \<lparr>stat_deviceId = i,
               stat_max = toFixed2_parsed (maxv d),
               stat_avg = toFixed2_parsed a,
               stat_min = toFixed2_parsed (minv d)\<rparr>
      | _ \<Rightarrow> Inl TypeError)"

fun collect_stats :: "(nat \<times> device) list \<Rightarrow> nat list \<Rightarrow> js_error + stats_entry list" where
  "collect_stats m [] = Inr []"
| "collect_stats m (i # is) =
     (case map_of m i of
        None \<Rightarrow> Inl TypeError
      | Some d \<Rightarrow>
          (case device_stats i d of
             Inl e \<Rightarrow> Inl e
           | Inr st \<Rightarrow>
               (case collect_stats m is of
                  Inl e \<Rightarrow> Inl e
                | Inr sts \<Rightarrow> Inr (st # sts))))"

definition handleTerminateSignal :: "state \<Rightarrow> js_error option \<times> state" where
  "handleTerminateSignal s =
     (if isTerminated s then (None, s)
      else
        let s1 = s\<lparr>isTerminated := True\<rparr>
        in case collect_stats (deviceMap s1) device_ids of
             Inl e \<Rightarrow> (Some e, s1)
           | Inr statsData \<Rightarrow>
               (None, s1\<lparr>sent := sent s1 @ [(EndStatistics statsData, open_clients s1)]\<rparr>))"

subsection \<open>Inbound messages\<close>

text \<open>The \<open>login\<close> and \<open>logout\<close> cases of the switch, given the field they read.\<close>

definition login_case :: "builtins \<Rightarrow> int \<Rightarrow> jsval \<Rightarrow> state \<Rightarrow> js_error option \<times> state" where
  "login_case b now field s =
     (case parseInt b field of
        Inl e \<Rightarrow> (Some e, s)
      | Inr loginId \<Rightarrow>
          if js_ge loginId (Fin 1) \<and> js_le loginId (Fin 6) then
            (case deviceMap_get (deviceMap s) loginId of
               None \<Rightarrow> (Some TypeError, s)
             | Some (k, device) \<Rightarrow>
                 (None, broadcast (s\<lparr>deviceMap :=
                    modify_device k (\<lambda>d. d\<lparr>con := True, lastUpdate := now\<rparr>) (deviceMap s)\<rparr>)))
          else (None, s))"

definition logout_case :: "builtins \<Rightarrow> jsval \<Rightarrow> state \<Rightarrow> js_error option \<times> state" where
  "logout_case b field s =
     (case parseInt b field of
        Inl e \<Rightarrow> (Some e, s)
      | Inr logoutId \<Rightarrow>
          if js_ge logoutId (Fin 1) \<and> js_le logoutId (Fin 6) then
            (case deviceMap_get (deviceMap s) logoutId of
               None \<Rightarrow> (Some TypeError, s)
             | Some (k, device) \<Rightarrow>
                 (None, broadcast (s\<lparr>deviceMap :=
                    modify_device k (\<lambda>d. d\<lparr>con := False\<rparr>) (deviceMap s)\<rparr>)))
          else (None, s))"

definition start_monitor_case :: "builtins \<Rightarrow> jsval \<Rightarrow> state \<Rightarrow> js_error option \<times> state" where
  "start_monitor_case b field s =
     (case parseInt b field of
        Inl e \<Rightarrow> (Some e, s)
      | Inr adminDeviceId \<Rightarrow>
          if adminDeviceId = Fin 1 then (None, broadcastStartMonitor s) else (None, s))"

definition volume_case :: "builtins \<Rightarrow> int \<Rightarrow> jsval \<Rightarrow> state \<Rightarrow> js_error option \<times> state" where
  "volume_case b now data s =
     (case updateDevice b now data s of
        Inl e \<Rightarrow> (Some e, s)
      | Inr (ok, s') \<Rightarrow> (None, if ok then broadcast s' else s'))"

text \<open>
  What runs inside the \<open>try\<close> of the message listener. The message is the result of
  \<open>JSON.parse\<close>, \<open>None\<close> for a text that does not parse.
\<close>

definition message_try :: "builtins \<Rightarrow> int \<Rightarrow> jsval option \<Rightarrow> state \<Rightarrow> js_error option \<times> state" where
  "message_try b now message s =
     (case message of
        None \<Rightarrow> (Some SyntaxError, s)
      | Some data \<Rightarrow>
          (case get_prop data ''type'' of
             Inl e \<Rightarrow> (Some e, s)
           | Inr ty \<Rightarrow>
               if ty = JString ''terminate_process'' then
                 (case get_prop data ''deviceId'' of
                    Inl e \<Rightarrow> (Some e, s)
                  | Inr v \<Rightarrow>
                      handleTerminateProcess b now (if truthy v then v else unknown_origin) s)
               else if isServerClosing s then (None, s)
               else if ty = JString ''login'' then
                 (case get_prop data ''device'' of
                    Inl e \<Rightarrow> (Some e, s) | Inr f \<Rightarrow> login_case b now f s)
               else if ty = JString ''logout'' then
                 (case get_prop data ''deviceId'' of
                    Inl e \<Rightarrow> (Some e, s) | Inr f \<Rightarrow> logout_case b f s)
               else if ty = JString ''terminate'' then handleTerminateSignal s
               else if ty = JString ''volume'' then volume_case b now data s
               else if ty = JString ''start_monitor'' then
                 (case get_prop data ''deviceId'' of
                    Inl e \<Rightarrow> (Some e, s) | Inr f \<Rightarrow> start_monitor_case b f s)
               else (None, s)))"

text \<open>The listener: its \<open>catch\<close> logs and drops whatever was raised.\<close>

definition on_message :: "builtins \<Rightarrow> int \<Rightarrow> jsval option \<Rightarrow> state \<Rightarrow> js_error option \<times> state" where
  "on_message b now message s = (None, snd (message_try b now message s))"

subsection \<open>The liveness sweep\<close>

text \<open>The body of the \<open>for\<close> loop of the interval callback, and the loop.\<close>

fun sweep_devices ::
  "int \<Rightarrow> nat list \<Rightarrow> (nat \<times> device) list \<Rightarrow> bool \<Rightarrow>
     js_error option \<times> (nat \<times> device) list \<times> bool" where
  "sweep_devices now [] m statusChanged = (None, m, statusChanged)"
| "sweep_devices now (i # is) m statusChanged =
     (case map_of m i of
        None \<Rightarrow> (Some TypeError, m, statusChanged)
      | Some d \<Rightarrow>
          if \<not> con d then sweep_devices now is m statusChanged
          else
            let c = (now - lastUpdate d < DEVICE_TIMEOUT)
            in sweep_devices now is (modify_device i (\<lambda>d. d\<lparr>con := c\<rparr>) m)
                 (if c \<noteq> con d then True else statusChanged))"

definition on_deviceCheck :: "int \<Rightarrow> state \<Rightarrow> js_error option \<times> state" where
  "on_deviceCheck now s =
     (if isServerClosing s then (None, s)
      else
        case sweep_devices now device_ids (deviceMap s) False of
          (e, m, statusChanged) \<Rightarrow>
            (let s1 = s\<lparr>deviceMap := m\<rparr>
             in (case e of
                   Some x \<Rightarrow> (Some x, s1)
                 | None \<Rightarrow> (None, if statusChanged then broadcast s1 else s1))))"

subsection \<open>The console\<close>

text \<open>
  \<open>(device.avg + vol) / 2\<close>: numeric for a number, \<open>undefined\<close>, \<open>null\<close> or a boolean in
  \<open>avg\<close>; with a string (or an array or object, through its string) the sum is the
  concatenation, which the division converts to a number.
\<close>

fun add_halve :: "builtins \<Rightarrow> jsval \<Rightarrow> jsnum \<Rightarrow> js_error + jsnum" where
  "add_halve b (JNumber a) v = Inr (num_half (num_add a v))"
| "add_halve b JUndefined v = Inr NaN"
| "add_halve b JNull v = Inr (num_half (num_add (Fin 0) v))"
| "add_halve b (JBool t) v = Inr (num_half (num_add (Fin (if t then 1 else 0)) v))"
| "add_halve b (JString str) v = Inr (num_half (toNumber_text b (str @ toString_num b v)))"
| "add_halve b a v =
     (case to_string b a of
        Inl e \<Rightarrow> Inl e
      | Inr str \<Rightarrow> Inr (num_half (toNumber_text b (str @ toString_num b v))))"

text \<open>
  \<open>printDeviceStatus\<close> changes nothing; it raises where \<open>toFixed\<close> is called on an
  \<open>avg\<close> that is not a number.
\<close>

fun printDeviceStatus :: "(nat \<times> device) list \<Rightarrow> nat list \<Rightarrow> js_error option" where
  "printDeviceStatus m [] = None"
| "printDeviceStatus m (i # is) =
     (case map_of m i of
        None \<Rightarrow> Some TypeError
      | Some d \<Rightarrow> (case avg d of JNumber a \<Rightarrow> printDeviceStatus m is | _ \<Rightarrow> Some TypeError))"

text \<open>The \<open>set\<close> command, once the line has split into three parts.\<close>

definition set_command :: "builtins \<Rightarrow> int \<Rightarrow> string \<Rightarrow> string \<Rightarrow> state \<Rightarrow> js_error option \<times> state" where
  "set_command b now p1 p2 s =
     (let deviceId = parseInt_text b p1; v = parseFloat_text b p2
      in if js_ge deviceId (Fin 1) \<and> js_le deviceId (Fin 6) \<and> \<not> isNaN v
            \<and> js_ge v (Fin 0) \<and> js_le v (Fin 100) then
           (case deviceMap_get (deviceMap s) deviceId of
              None \<Rightarrow> (Some TypeError, s)
            | Some (k, device) \<Rightarrow>
                (case add_halve b (avg device) v of
                   Inl e \<Rightarrow>
                     (Some e, s\<lparr>deviceMap := modify_device k (\<lambda>d. d\<lparr>vol := v\<rparr>) (deviceMap s)\<rparr>)
                 | Inr a \<Rightarrow>
                     (None, broadcast (s\<lparr>deviceMap :=
                        modify_device k
                          (\<lambda>d. d\<lparr>vol := v, avg := JNumber a, maxv := Math_max (maxv d) v,
                                  minv := Math_min (minv d) v, con := True,
                                  lastUpdate := now\<rparr>)
                          (deviceMap s)\<rparr>))))
         else (None, s))"

definition on_line :: "builtins \<Rightarrow> int \<Rightarrow> string \<Rightarrow> state \<Rightarrow> js_error option \<times> state" where
  "on_line b now input s =
     (if isServerClosing s then (None, s)
      else if input = [] then (printDeviceStatus (deviceMap s) device_ids, s)
      else if take 4 input = ''set '' then
        (case split_sp input of
           [p0, p1, p2] \<Rightarrow> set_command b now p1 p2 s
         | _ \<Rightarrow> (None, s))
      else if input = ''exit'' \<or> input = ''quit'' then (None, closeServer b now s)
      else (None, s))"

subsection \<open>Connections\<close>

text \<open>
  A new connection: the library adds the socket, open, to \<open>wss.clients\<close>; the listener
  pushes the table.
\<close>

definition on_connection :: "nat \<Rightarrow> state \<Rightarrow> state" where
  "on_connection c s = broadcast (s\<lparr>clients := clients s @ [(c, OPEN)]\<rparr>)"

text \<open>
  A socket has closed: the library takes it out of \<open>wss.clients\<close>; the connection's
  own listener only logs; the listener that \<open>handleTerminateProcess\<close> added, if it did,
  counts the socket.
\<close>

definition on_client_close :: "nat \<Rightarrow> state \<Rightarrow> state" where
  "on_client_close c s =
     (let s1 = s\<lparr>clients := filter (\<lambda>(c', r). c' \<noteq> c) (clients s)\<rparr>
      in if c \<in> set (drainListeners s1) then checkAllClientsClosed (closedClients_add c s1)
         else s1)"

definition on_client_error :: "nat \<Rightarrow> state \<Rightarrow> state" where
  "on_client_error c s =
     (if c \<in> set (drainListeners s) then checkAllClientsClosed (closedClients_add c s)
      else s)"

section \<open>The event loop\<close>

text \<open>
  Everything the program does after start-up is a callback run by the event loop, one at
  a time. An event names the callback and carries what the environment supplies; the
  time is what \<open>Date.now()\<close> returns while the callback runs. \<open>PeerClosing\<close> is the one
  event without a callback: the closing handshake of a socket has begun, and the library
  has set its \<open>readyState\<close>.
\<close>

datatype event =
    Connection nat
  | Message nat "jsval option"
  | ClientClose nat
  | ClientError nat
  | PeerClosing nat
  | Line string
  | RlClose
  | Sigint
  | DeviceCheck
  | CloseTimeout
  | WssCloseCallback bool
  | WssCloseListener
  | UncaughtException
  | UnhandledRejection

text \<open>
  An exception that leaves a callback reaches the \<open>uncaughtException\<close> handler.
\<close>

definition uncaught :: "builtins \<Rightarrow> int \<Rightarrow> js_error option \<times> state \<Rightarrow> state" where
  "uncaught b now r =
     (case fst r of None \<Rightarrow> snd r | Some e \<Rightarrow> on_uncaughtException b now (snd r))"

text \<open>
  One turn of the loop. After \<open>process.exit\<close> nothing runs. A timer callback runs only
  while its timer is scheduled (and the close timer not before its time), a socket's
  listeners only while the socket exists, the listeners of \<open>wss.close\<close> only once
  registered.
\<close>

fun dispatch :: "builtins \<Rightarrow> int \<Rightarrow> event \<Rightarrow> state \<Rightarrow> state" where
  "dispatch b now (Connection c) s =
     (if c \<in> fst ` set (clients s) then s else on_connection c s)"
| "dispatch b now (Message c message) s =
     (if c \<in> fst ` set (clients s) then uncaught b now (on_message b now message s) else s)"
| "dispatch b now (ClientClose c) s =
     (if c \<in> fst ` set (clients s) then on_client_close c s else s)"
| "dispatch b now (ClientError c) s =
     (if c \<in> fst ` set (clients s) then on_client_error c s else s)"
| "dispatch b now (PeerClosing c) s =
     s\<lparr>clients := map (\<lambda>(c', r). if c' = c then (c', CLOSING) else (c', r)) (clients s)\<rparr>"
| "dispatch b now (Line input) s =
     (if rl_closed s then s else uncaught b now (on_line b now input s))"
| "dispatch b now RlClose s = rl_close b now s"
| "dispatch b now Sigint s = closeServer b now s"
| "dispatch b now DeviceCheck s =
     (if deviceCheckInterval s then uncaught b now (on_deviceCheck now s) else s)"
| "dispatch b now CloseTimeout s =
     (case closeTimeoutTimer s of
        None \<Rightarrow> s
      | Some due \<Rightarrow> if due \<le> now then on_close_timeout s else s)"
| "dispatch b now (WssCloseCallback err) s =
     (if 0 < wssCloseCalls s then wss_close_callback b now err s else s)"
| "dispatch b now WssCloseListener s =
     (if 0 < wssCloseCalls s then wss_close_listener b now s else s)"
| "dispatch b now UncaughtException s = on_uncaughtException b now s"
| "dispatch b now UnhandledRejection s = on_unhandledRejection b now s"

definition step :: "builtins \<Rightarrow> int \<times> event \<Rightarrow> state \<Rightarrow> state" where
  "step b te s = (if exited s \<noteq> None then s else dispatch b (fst te) (snd te) s)"

definition run :: "builtins \<Rightarrow> (int \<times> event) list \<Rightarrow> state \<Rightarrow> state" where
  "run b tes s = fold (step b) tes s"

section \<open>Notions used by the statements\<close>

text \<open>The six keys of \<open>deviceMap\<close>, as numbers: the device ids \<open>1..6\<close>.\<close>

definition is_device_key :: "jsnum \<Rightarrow> bool" where
  "is_device_key n = (n \<in> set (map (\<lambda>k. Fin (real k)) device_ids))"

text \<open>
  The worked examples need one environment of library functions. Their messages carry
  numbers, objects or leave a field out, so the conversions above settle them without
  consulting it. It is fixed all the same: it finds no number in any text.
\<close>

definition example_builtins :: builtins where
  "example_builtins =
     \<lparr>parseInt_text = (\<lambda>s. NaN), parseFloat_text = (\<lambda>s. NaN),
      toNumber_text = (\<lambda>s. if s = [] then Fin 0 else NaN),
      toString_num = (\<lambda>n. ''NaN'')\<rparr>"

text \<open>A server with one open connection and nothing else done.\<close>

definition one_client :: state where
  "one_client = (init 0)\<lparr>clients := [(0, OPEN)]\<rparr>"

text \<open>The same with two open connections.\<close>

definition two_clients :: state where
  "two_clients = (init 0)\<lparr>clients := [(0, OPEN), (1, OPEN)]\<rparr>"

subsection \<open>How a turn of the loop may change the state\<close>

text \<open>
  \<open>data_only\<close>: the turn touched nothing but the device map, \<open>isTerminated\<close> and the
  list of broadcasts. \<open>control_only\<close>: it touched none of these three.
  For the flags and timers of the shutdown there are three moves: nothing changed
  (\<open>unchanged_control\<close>), draining began (\<open>entered_draining\<close>: the flag is set, the
  sweep is unscheduled, and the close timer is pending exactly when a socket was there),
  or the process has exited (\<open>forced_exit\<close>).
\<close>

definition data_only :: "state \<Rightarrow> state \<Rightarrow> bool" where
  "data_only s s' =
     (isServerClosing s' = isServerClosing s \<and> deviceCheckInterval s' = deviceCheckInterval s
      \<and> closeTimeoutTimer s' = closeTimeoutTimer s \<and> exited s' = exited s
      \<and> clients s' = clients s \<and> rl_closed s' = rl_closed s
      \<and> wssCloseCalls s' = wssCloseCalls s \<and> drainClients s' = drainClients s
      \<and> closedClients s' = closedClients s \<and> drainListeners s' = drainListeners s)"

definition unchanged_control :: "state \<Rightarrow> state \<Rightarrow> bool" where
  "unchanged_control s s' =
     (isServerClosing s' = isServerClosing s \<and> deviceCheckInterval s' = deviceCheckInterval s
      \<and> closeTimeoutTimer s' = closeTimeoutTimer s \<and> exited s' = exited s)"

definition entered_draining :: "int \<Rightarrow> state \<Rightarrow> state \<Rightarrow> bool" where
  "entered_draining now s s' =
     (\<not> isServerClosing s \<and> isServerClosing s' \<and> \<not> deviceCheckInterval s'
      \<and> closeTimeoutTimer s' = (if clients s = [] then None else Some (now + CLOSE_TIMEOUT))
      \<and> exited s' = exited s)"

definition forced_exit :: "state \<Rightarrow> state \<Rightarrow> bool" where
  "forced_exit s s' =
     (isServerClosing s' = isServerClosing s \<and> deviceCheckInterval s' = deviceCheckInterval s
      \<and> closeTimeoutTimer s' = None \<and> exited s' = Some 0)"

definition control_move :: "int \<Rightarrow> state \<Rightarrow> state \<Rightarrow> bool" where
  "control_move now s s' =
     (unchanged_control s s' \<or> entered_draining now s s' \<or> forced_exit s s')"

text \<open>
  The fourth move, of one kind of event only: a \<open>terminate_process\<close> message whose
  \<open>deviceId\<close> has no string. The entry log of \<open>handleTerminateProcess\<close> raises on it,
  after the flag is set.
\<close>

fun shutdown_log_raises :: "builtins \<Rightarrow> event \<Rightarrow> bool" where
  "shutdown_log_raises b (Message c (Some data)) =
     (get_prop data ''type'' = Inr (JString ''terminate_process'')
      \<and> (case get_prop data ''deviceId'' of
            Inl e \<Rightarrow> False
          | Inr v \<Rightarrow> truthy v \<and> to_string b v = Inl TypeError))"
| "shutdown_log_raises b ev = False"

definition control_only :: "state \<Rightarrow> state \<Rightarrow> bool" where
  "control_only s s' =
     (deviceMap s' = deviceMap s \<and> isTerminated s' = isTerminated s \<and> sent s' = sent s)"



subsection \<open>Readings and watermarks\<close>

text \<open>
  The level an event asks the server to record, when the event is a reading: a
  \<open>volume\<close> message (\<open>parseFloat(data.vol)\<close>) or a \<open>set\<close> line of three parts
  (\<open>parseFloat(parts[2])\<close>).
\<close>

fun reading_value :: "builtins \<Rightarrow> event \<Rightarrow> jsnum option" where
  "reading_value b (Message c (Some data)) =
     (case get_prop data ''type'' of
        Inl e \<Rightarrow> None
      | Inr ty \<Rightarrow>
          if ty = JString ''volume'' then
            (case get_prop data ''vol'' of
               Inl e \<Rightarrow> None
             | Inr w \<Rightarrow> (case parseFloat b w of Inl e \<Rightarrow> None | Inr v \<Rightarrow> Some v))
          else None)"
| "reading_value b (Line input) =
     (if take 4 input = ''set '' then
        (case split_sp input of [p0, p1, p2] \<Rightarrow> Some (parseFloat_text b p2) | _ \<Rightarrow> None)
      else None)"
| "reading_value b ev = None"

text \<open>
  How the watermarks of one device may move in a turn of the loop that sees the reading
  \<open>rv\<close>: they stay, or they absorb the reading. \<open>map_move\<close> says so of every device of
  a map, and that the keys stay.
\<close>

definition watermarks_move :: "jsnum option \<Rightarrow> device \<Rightarrow> device \<Rightarrow> bool" where
  "watermarks_move rv d d' =
     (maxv d' = maxv d \<and> minv d' = minv d
      \<or> (case rv of
            None \<Rightarrow> False
          | Some v \<Rightarrow> maxv d' = Math_max (maxv d) v \<and> minv d' = Math_min (minv d) v))"

definition map_move ::
  "jsnum option \<Rightarrow> (nat \<times> device) list \<Rightarrow> (nat \<times> device) list \<Rightarrow> bool" where
  "map_move rv m m' =
     (map fst m' = map fst m
      \<and> list_all2 (\<lambda>kd kd'. watermarks_move rv (snd kd) (snd kd')) m m')"

text \<open>The invariant of the data model: the current level lies between the watermarks.\<close>

definition level_within_watermarks :: "device \<Rightarrow> bool" where
  "level_within_watermarks d = (js_le (minv d) (vol d) \<and> js_le (vol d) (maxv d))"

subsection \<open>Reachable states\<close>

text \<open>The states the server can be in: the initial one, and what a turn makes of one.\<close>

inductive reachable :: "builtins \<Rightarrow> state \<Rightarrow> bool" for b :: builtins where
  reachable_init: "reachable b (init t0)"
| reachable_step: "reachable b s \<Longrightarrow> reachable b (step b te s)"

subsection \<open>Messages of the examples\<close>

definition volume_message :: "real \<Rightarrow> jsval \<Rightarrow> jsval \<Rightarrow> jsval" where
  "volume_message k v a =
     JObject [(''type'', JString ''volume''), (''deviceId'', JNumber (Fin k)),
              (''vol'', v), (''avg'', a)]"

definition volume_message_without_vol :: "real \<Rightarrow> jsval \<Rightarrow> jsval" where
  "volume_message_without_vol k a =
     JObject [(''type'', JString ''volume''), (''deviceId'', JNumber (Fin k)), (''avg'', a)]"

text \<open>A shutdown request whose \<open>deviceId\<close> is the object \<open>{"toString": 1}\<close>.\<close>

definition terminate_process_unprintable :: jsval where
  "terminate_process_unprintable =
     JObject [(''type'', JString ''terminate_process''),
              (''deviceId'', JObject [(''toString'', JNumber (Fin 1))])]"

definition terminate_process_message :: jsval where
  "terminate_process_message = JObject [(''type'', JString ''terminate_process'')]"

definition start_monitor_message :: "real \<Rightarrow> jsval" where
  "start_monitor_message k =
     JObject [(''type'', JString ''start_monitor''), (''deviceId'', JNumber (Fin k))]"

definition terminate_message :: jsval where
  "terminate_message = JObject [(''type'', JString ''terminate'')]"

definition login_message :: "real \<Rightarrow> jsval" where
  "login_message k = JObject [(''type'', JString ''login''), (''device'', JNumber (Fin k))]"

text \<open>Whether a fan-out carried the final statistics.\<close>

fun is_end_statistics :: "payload \<Rightarrow> bool" where
  "is_end_statistics (EndStatistics sts) = True"
| "is_end_statistics p = False"

section \<open>Evaluating the examples\<close>

text \<open>The definitions the simplifier unfolds to run the model on an example.\<close>

lemmas eval_defs =
  run_def step_def uncaught_def on_message_def message_try_def volume_case_def
  updateDevice_def updateDevice_rejects_def deviceMap_get_val_def deviceMap_get_def key_of_def
  is_integer_def toward_zero_def modify_device_def broadcast_def open_clients_def
  handleTerminateSignal_def handleTerminateProcess_def drain_sessions_def login_case_def
  logout_case_def start_monitor_case_def broadcastStartMonitor_def on_connection_def
  on_deviceCheck_def js_ge_def login_message_def start_monitor_message_def
  terminate_process_unprintable_def terminate_process_message_def unknown_origin_def
  device_stats_def one_client_def init_def device_ids_def new_device_def js_gt_def
  Math_max_def Math_min_def volume_message_def volume_message_without_vol_def
  terminate_message_def

section \<open>Device ids and keys\<close>

lemma set_device_ids: "k \<in> set device_ids \<longleftrightarrow> 1 \<le> k \<and> k \<le> 6"
proof -
  have "(k = 1 \<or> k = 2 \<or> k = 3 \<or> k = 4 \<or> k = 5 \<or> k = 6) = (1 \<le> k \<and> k \<le> 6)"
    by arith
  then show ?thesis by (simp add: device_ids_def)
qed

lemma key_of_range:
  assumes "js_ge n (Fin 1)" "js_le n (Fin 6)" "key_of n = Some k"
  shows "n = Fin (real k) \<and> k \<in> set device_ids"
proof -
  from assms(3) obtain r where r: "n = Fin r" "is_integer r" "0 \<le> r" "k = nat \<lfloor>r\<rfloor>"
    by (auto simp: key_of_def split: jsnum.splits if_splits)
  from assms(1,2) r have b: "1 \<le> r" "r \<le> 6" by (simp_all add: js_ge_def)
  from r have rk: "r = real k" by (simp add: is_integer_def)
  with b have "1 \<le> k" "k \<le> 6" by simp_all
  then have "k \<in> set device_ids" by (simp add: set_device_ids)
  with r(1) rk show ?thesis by simp
qed

lemma key_of_real [simp]: "key_of (Fin (real k)) = Some k"
  by (simp add: key_of_def is_integer_def)

lemma login_case_rejects:
  assumes "\<forall>n. parseInt b f = Inr n \<longrightarrow> \<not> is_device_key n"
  shows "snd (login_case b now f s) = s"
proof (cases "parseInt b f")
  case (Inl e)
  then show ?thesis by (simp add: login_case_def)
next
  case (Inr n)
  with assms have nk: "\<not> is_device_key n" by simp
  show ?thesis
  proof (cases "js_ge n (Fin 1) \<and> js_le n (Fin 6)")
    case False
    with Inr show ?thesis by (auto simp: login_case_def)
  next
    case True
    have "key_of n = None"
    proof (cases "key_of n")
      case (Some k)
      with True key_of_range[of n k] nk show ?thesis by (auto simp: is_device_key_def)
    qed simp
    with Inr True show ?thesis by (simp add: login_case_def deviceMap_get_def)
  qed
qed


lemma logout_case_rejects:
  assumes "\<forall>n. parseInt b f = Inr n \<longrightarrow> \<not> is_device_key n"
  shows "snd (logout_case b f s) = s"
proof (cases "parseInt b f")
  case (Inl e)
  then show ?thesis by (simp add: logout_case_def)
next
  case (Inr n)
  with assms have nk: "\<not> is_device_key n" by simp
  show ?thesis
  proof (cases "js_ge n (Fin 1) \<and> js_le n (Fin 6)")
    case False
    with Inr show ?thesis by (auto simp: logout_case_def)
  next
    case True
    have "key_of n = None"
    proof (cases "key_of n")
      case (Some k)
      with True key_of_range[of n k] nk show ?thesis by (auto simp: is_device_key_def)
    qed simp
    with Inr True show ?thesis by (simp add: logout_case_def deviceMap_get_def)
  qed
qed

lemma guard_passed_number:
  assumes "updateDevice_rejects b (JNumber n) = Inr False"
  shows "js_ge n (Fin 1) \<and> js_le n (Fin 6)"
proof (cases n)
  case (Fin r)
  with assms show ?thesis
    by (auto simp: updateDevice_rejects_def js_ge_def js_gt_def split: if_splits)
qed (use assms in \<open>auto simp: updateDevice_rejects_def js_ge_def js_gt_def split: if_splits\<close>)

lemma lookup_fails:
  assumes "updateDevice_rejects b v = Inr False" "\<forall>n. v = JNumber n \<longrightarrow> \<not> is_device_key n"
  shows "deviceMap_get_val m v = None"
proof (cases v)
  case (JNumber n)
  with assms(1) have r: "js_ge n (Fin 1) \<and> js_le n (Fin 6)" by (simp add: guard_passed_number)
  from JNumber assms(2) have nk: "\<not> is_device_key n" by simp
  have "key_of n = None"
  proof (cases "key_of n")
    case (Some k)
    with r key_of_range[of n k] nk show ?thesis by (auto simp: is_device_key_def)
  qed simp
  with JNumber show ?thesis by (simp add: deviceMap_get_val_def deviceMap_get_def)
qed (simp_all add: deviceMap_get_val_def)

lemma to_string_error:
  "to_string b v = Inl e \<Longrightarrow> e = TypeError"
  "join_elements b xs = Inl e \<Longrightarrow> e = TypeError"
  by (induction b v and b xs arbitrary: e and e rule: to_string_join_elements.induct)
    (auto split: if_splits sum.splits)

lemma parseFloat_error: "parseFloat b w = Inl e \<Longrightarrow> e = TypeError"
  by (cases w) (auto split: sum.splits if_splits dest: to_string_error)

lemma updateDevice_raises:
  assumes "get_prop data ''deviceId'' = Inr v" "updateDevice_rejects b v = Inr False"
    "\<forall>n. v = JNumber n \<longrightarrow> \<not> is_device_key n"
  shows "updateDevice b now data s = Inl TypeError"
proof -
  from assms(1) obtain w where w: "get_prop data ''vol'' = Inr w"
    by (cases data) auto
  have e: "parseFloat b w = Inl e \<Longrightarrow> e = TypeError" for e
    by (rule parseFloat_error)
  show ?thesis
    using assms(1,2) w lookup_fails[OF assms(2,3)] e
    by (auto simp: updateDevice_def split: sum.splits)
qed

lemma volume_case_rejects:
  assumes "get_prop data ''deviceId'' = Inr v" "\<forall>n. v = JNumber n \<longrightarrow> \<not> is_device_key n"
  shows "snd (volume_case b now data s) = s"
proof (cases "updateDevice_rejects b v")
  case (Inl e)
  with assms(1) show ?thesis by (simp add: volume_case_def updateDevice_def)
next
  case (Inr rej)
  show ?thesis
  proof (cases rej)
    case True
    with Inr assms(1) show ?thesis by (simp add: volume_case_def updateDevice_def)
  next
    case False
    with Inr have "updateDevice b now data s = Inl TypeError"
      using updateDevice_raises[OF assms(1) _ assms(2)] by simp
    then show ?thesis by (simp add: volume_case_def)
  qed
qed

section \<open>Inbound events with a device id out of range\<close>

text \<open>
  Claim C3, as amended. An inbound \<open>login\<close>, \<open>logout\<close> or \<open>volume\<close> event whose device
  id, as the handler reads it, is not one of \<open>1..6\<close> fails: the listener returns with the
  state exactly as it was, so no device is mutated and nothing is broadcast. The handler
  reads \<open>parseInt(data.device)\<close> for a login, \<open>parseInt(data.deviceId)\<close> for a logout, and
  \<open>data.deviceId\<close> itself for a reading.
\<close>

theorem out_of_range_id_changes_nothing:
  assumes "get_prop data ''type'' = Inr (JString kind)"
    and "kind = ''login'' \<and> get_prop data ''device'' = Inr f
           \<and> (\<forall>n. parseInt b f = Inr n \<longrightarrow> \<not> is_device_key n)
       \<or> kind = ''logout'' \<and> get_prop data ''deviceId'' = Inr f
           \<and> (\<forall>n. parseInt b f = Inr n \<longrightarrow> \<not> is_device_key n)
       \<or> kind = ''volume'' \<and> get_prop data ''deviceId'' = Inr f
           \<and> (\<forall>n. f = JNumber n \<longrightarrow> \<not> is_device_key n)"
  shows "on_message b now (Some data) s = (None, s)"
proof -
  from assms(2) consider
      (login) "kind = ''login''" "get_prop data ''device'' = Inr f"
        "\<forall>n. parseInt b f = Inr n \<longrightarrow> \<not> is_device_key n"
    | (logout) "kind = ''logout''" "get_prop data ''deviceId'' = Inr f"
        "\<forall>n. parseInt b f = Inr n \<longrightarrow> \<not> is_device_key n"
    | (volume) "kind = ''volume''" "get_prop data ''deviceId'' = Inr f"
        "\<forall>n. f = JNumber n \<longrightarrow> \<not> is_device_key n"
    by blast
  then have "snd (message_try b now (Some data) s) = s"
  proof cases
    case login
    with assms(1) login_case_rejects[OF login(3), of now s] show ?thesis
      by (simp add: message_try_def)
  next
    case logout
    with assms(1) logout_case_rejects[OF logout(3), of s] show ?thesis
      by (simp add: message_try_def)
  next
    case volume
    with assms(1) volume_case_rejects[OF volume(2,3), of b now s] show ?thesis
      by (simp add: message_try_def)
  qed
  then show ?thesis by (simp add: on_message_def)
qed

theorem out_of_range_id_changes_nothing_witness:
  "parseInt example_builtins (JNumber (Fin 7)) = Inr (Fin 7) \<and> \<not> is_device_key (Fin 7)
   \<and> on_message example_builtins 5
        (Some (JObject [(''type'', JString ''login''), (''device'', JNumber (Fin 7))]))
        one_client = (None, one_client)
   \<and> on_message example_builtins 5
        (Some (JObject [(''type'', JString ''logout''), (''deviceId'', JNumber (Fin 0))]))
        one_client = (None, one_client)
   \<and> on_message example_builtins 5
        (Some (JObject [(''type'', JString ''volume''), (''deviceId'', JNumber (Fin 9)),
                        (''vol'', JNumber (Fin 50)), (''avg'', JNumber (Fin 50))]))
        one_client = (None, one_client)"
  using
    out_of_range_id_changes_nothing[of
      "JObject [(''type'', JString ''login''), (''device'', JNumber (Fin 7))]"
      "''login''" "JNumber (Fin 7)" example_builtins 5 one_client]
    out_of_range_id_changes_nothing[of
      "JObject [(''type'', JString ''logout''), (''deviceId'', JNumber (Fin 0))]"
      "''logout''" "JNumber (Fin 0)" example_builtins 5 one_client]
    out_of_range_id_changes_nothing[of
      "JObject [(''type'', JString ''volume''), (''deviceId'', JNumber (Fin 9)),
                (''vol'', JNumber (Fin 50)), (''avg'', JNumber (Fin 50))]"
      "''volume''" "JNumber (Fin 9)" example_builtins 5 one_client]
  by (simp add: is_device_key_def device_ids_def toward_zero_def)

text \<open>
  Claim C3 as stated fails, because \<open>login\<close> and \<open>logout\<close> read the id through
  \<open>parseInt\<close>: the id \<open>6.5\<close> lies outside \<open>1..6\<close>, yet \<open>login {device: 6.5}\<close> logs
  device 6 in and broadcasts the table.
\<close>

theorem fractional_id_is_accepted:
  "\<not> is_device_key (Fin 6.5)
   \<and> map_of (deviceMap (snd (on_message example_builtins 5 (Some (login_message 6.5))
        one_client))) 6
       = Some ((new_device 0 6)\<lparr>con := True, lastUpdate := 5\<rparr>)
   \<and> map fst (sent (snd (on_message example_builtins 5 (Some (login_message 6.5))
        one_client)))
       = [Snapshot (map (\<lambda>i. if i = 6 then (new_device 0 6)\<lparr>con := True, lastUpdate := 5\<rparr>
                                else new_device 0 i) device_ids)]"
  by (simp add: eval_defs is_device_key_def)

section \<open>The start signal\<close>

text \<open>
  Claim C5, as amended. An inbound \<open>start_monitor\<close> event triggers a \<open>start_monitor\<close>
  broadcast if and only if \<open>parseInt\<close> of its \<open>deviceId\<close> is \<open>1\<close> and neither
  \<open>isServerClosing\<close> nor \<open>isTerminated\<close> is set; in every other case the event is
  ignored: the state, and with it the list of broadcasts, stays as it was.
\<close>

theorem start_monitor_only_from_admin:
  assumes "get_prop data ''type'' = Inr (JString ''start_monitor'')"
    and "get_prop data ''deviceId'' = Inr f"
  shows "on_message b now (Some data) s =
    (None, if parseInt b f = Inr (Fin 1) \<and> \<not> isServerClosing s \<and> \<not> isTerminated s
           then s\<lparr>sent := sent s @ [(StartMonitor, open_clients s)]\<rparr> else s)"
proof -
  have "snd (start_monitor_case b f s) =
      (if parseInt b f = Inr (Fin 1) \<and> \<not> isServerClosing s \<and> \<not> isTerminated s
       then s\<lparr>sent := sent s @ [(StartMonitor, open_clients s)]\<rparr> else s)"
    by (cases "parseInt b f") (simp_all add: start_monitor_case_def broadcastStartMonitor_def)
  with assms show ?thesis
    by (simp add: on_message_def message_try_def)
qed

theorem start_monitor_only_from_admin_witness:
  "on_message example_builtins 5 (Some (start_monitor_message 1)) one_client
     = (None, one_client\<lparr>sent := [(StartMonitor, [0])]\<rparr>)
   \<and> parseInt example_builtins (JNumber (Fin 1.9)) = Inr (Fin 1)
   \<and> on_message example_builtins 5 (Some (start_monitor_message 1.9)) one_client
     = (None, one_client\<lparr>sent := [(StartMonitor, [0])]\<rparr>)
   \<and> on_message example_builtins 5 (Some (start_monitor_message 4)) one_client
     = (None, one_client)
   \<and> on_message example_builtins 5 (Some (start_monitor_message 1))
        (one_client\<lparr>isTerminated := True\<rparr>)
     = (None, one_client\<lparr>isTerminated := True\<rparr>)"
  using
    start_monitor_only_from_admin[of "start_monitor_message 1" "JNumber (Fin 1)"
      example_builtins 5 one_client]
    start_monitor_only_from_admin[of "start_monitor_message 1.9" "JNumber (Fin 1.9)"
      example_builtins 5 one_client]
    start_monitor_only_from_admin[of "start_monitor_message 4" "JNumber (Fin 4)"
      example_builtins 5 one_client]
    start_monitor_only_from_admin[of "start_monitor_message 1" "JNumber (Fin 1)"
      example_builtins 5 "one_client\<lparr>isTerminated := True\<rparr>"]
  by (simp add: toward_zero_def start_monitor_message_def one_client_def init_def
      open_clients_def)

text \<open>
  Claim C5 as stated fails: the \<open>deviceId\<close> \<open>1.9\<close> is not \<open>1\<close>, yet
  \<open>start_monitor {deviceId: 1.9}\<close> is not ignored: the start signal is broadcast.
\<close>

theorem start_monitor_from_fractional_id:
  "JNumber (Fin 1.9) \<noteq> JNumber (Fin 1)
   \<and> sent (snd (on_message example_builtins 5 (Some (start_monitor_message 1.9)) one_client))
       = [(StartMonitor, [0])]"
  by (simp add: eval_defs)

section \<open>A reading whose id is in range but is not a key\<close>

text \<open>
  Claim C9. The \<open>volume\<close> path does not coerce \<open>data.deviceId\<close>. When the value passes
  the guard of \<open>updateDevice\<close> but is not one of the integer keys \<open>1..6\<close> (the number
  \<open>2.5\<close>, a string), the lookup yields \<open>undefined\<close>, the assignment to it raises, the
  listener catches the exception, and the turn of the event loop ends in the state it began
  in: every device unchanged, nothing broadcast, the process running.
\<close>

theorem volume_id_not_coerced:
  assumes "get_prop data ''type'' = Inr (JString ''volume'')"
    and "get_prop data ''deviceId'' = Inr v"
    and "updateDevice_rejects b v = Inr False"
    and "\<forall>n. v = JNumber n \<longrightarrow> \<not> is_device_key n"
    and "\<not> isServerClosing s" and "exited s = None" and "c \<in> fst ` set (clients s)"
  shows "deviceMap_get_val (deviceMap s) v = None
    \<and> message_try b now (Some data) s = (Some TypeError, s)
    \<and> on_message b now (Some data) s = (None, s)
    \<and> step b (now, Message c (Some data)) s = s"
proof -
  have u: "updateDevice b now data s = Inl TypeError"
    using updateDevice_raises[OF assms(2,3,4)] .
  have t: "message_try b now (Some data) s = (Some TypeError, s)"
    using assms(1,5) u by (simp add: message_try_def volume_case_def)
  then have m: "on_message b now (Some data) s = (None, s)"
    by (simp add: on_message_def)
  with assms(6,7) have "step b (now, Message c (Some data)) s = s"
    by (simp add: step_def uncaught_def)
  with t m lookup_fails[OF assms(3,4)] show ?thesis by simp
qed

theorem volume_id_not_coerced_witness:
  "updateDevice_rejects example_builtins (JNumber (Fin 2.5)) = Inr False
   \<and> \<not> is_device_key (Fin 2.5)
   \<and> message_try example_builtins 5
        (Some (JObject [(''type'', JString ''volume''), (''deviceId'', JNumber (Fin 2.5)),
                        (''vol'', JNumber (Fin 50)), (''avg'', JNumber (Fin 50))]))
        one_client = (Some TypeError, one_client)
   \<and> step example_builtins (5, Message 0
        (Some (JObject [(''type'', JString ''volume''), (''deviceId'', JNumber (Fin 2.5)),
                        (''vol'', JNumber (Fin 50)), (''avg'', JNumber (Fin 50))])))
        one_client = one_client"
  using
    volume_id_not_coerced[of
      "JObject [(''type'', JString ''volume''), (''deviceId'', JNumber (Fin 2.5)),
                (''vol'', JNumber (Fin 50)), (''avg'', JNumber (Fin 50))]"
      "JNumber (Fin 2.5)" example_builtins one_client 0 5]
  by (simp add: is_device_key_def device_ids_def updateDevice_rejects_def js_gt_def
      one_client_def init_def)

section \<open>Frame lemmas\<close>

lemma data_only_refl [simp]: "data_only s s"
  by (simp add: data_only_def)


lemma data_only_broadcast [simp]: "data_only s (broadcast s)"
  by (simp add: data_only_def broadcast_def)

lemma data_only_broadcastStartMonitor [simp]: "data_only s (broadcastStartMonitor s)"
  by (simp add: data_only_def broadcastStartMonitor_def)

lemma data_only_deviceMap [simp]: "data_only s (s\<lparr>deviceMap := m\<rparr>)"
  by (simp add: data_only_def)

lemma data_only_broadcast_deviceMap [simp]: "data_only s (broadcast (s\<lparr>deviceMap := m\<rparr>))"
  by (simp add: data_only_def broadcast_def)










subsection \<open>Shutdown functions\<close>

lemma drain_client_frame:
  "isServerClosing (drain_client cr s) = isServerClosing s"
  "deviceCheckInterval (drain_client cr s) = deviceCheckInterval s"
  "closeTimeoutTimer (drain_client cr s) = closeTimeoutTimer s"
  "exited (drain_client cr s) = exited s"
  "rl_closed (drain_client cr s) = rl_closed s"
  "deviceMap (drain_client cr s) = deviceMap s"
  "isTerminated (drain_client cr s) = isTerminated s"
  "sent (drain_client cr s) = sent s"
  by (simp_all add: drain_client_def checkAllClientsClosed_def closedClients_add_def
      closeWebSocketServer_def)

lemma fold_drain_client_frame:
  "isServerClosing (fold drain_client crs s) = isServerClosing s"
  "deviceCheckInterval (fold drain_client crs s) = deviceCheckInterval s"
  "closeTimeoutTimer (fold drain_client crs s) = closeTimeoutTimer s"
  "exited (fold drain_client crs s) = exited s"
  "rl_closed (fold drain_client crs s) = rl_closed s"
  "deviceMap (fold drain_client crs s) = deviceMap s"
  "isTerminated (fold drain_client crs s) = isTerminated s"
  "sent (fold drain_client crs s) = sent s"
  by (induction crs arbitrary: s) (simp_all add: drain_client_frame)

lemma drain_sessions_frame:
  "isServerClosing (drain_sessions now s) = isServerClosing s"
  "deviceCheckInterval (drain_sessions now s) = False"
  "closeTimeoutTimer (drain_sessions now s)
     = (if clients s = [] then None else Some (now + CLOSE_TIMEOUT))"
  "exited (drain_sessions now s) = exited s"
  "rl_closed (drain_sessions now s) = rl_closed s"
  "deviceMap (drain_sessions now s) = deviceMap s"
  "isTerminated (drain_sessions now s) = isTerminated s"
  "sent (drain_sessions now s) = sent s"
  by (simp_all add: drain_sessions_def Let_def fold_drain_client_frame closeWebSocketServer_def)

lemma handleTerminateProcess_closing [simp]:
  "isServerClosing s \<Longrightarrow> handleTerminateProcess b now d s = (None, s)"
  by (simp add: handleTerminateProcess_def)


lemma handleTerminateProcess_control_only:
  "control_only s (snd (handleTerminateProcess b now d s))"
  by (simp add: handleTerminateProcess_def control_only_def Let_def drain_sessions_frame
      split: sum.splits)

lemma closeServer_eq:
  "closeServer b now s =
     (if isServerClosing s then s else drain_sessions now (s\<lparr>isServerClosing := True\<rparr>))"
  by (simp add: closeServer_def handleTerminateProcess_def console_origin_def)


lemma closeServer_closing [simp]: "isServerClosing s \<Longrightarrow> closeServer b now s = s"
  by (simp add: closeServer_eq)

lemma closeServer_enters:
  "\<not> isServerClosing s \<Longrightarrow> entered_draining now s (closeServer b now s)"
  by (simp add: closeServer_eq entered_draining_def drain_sessions_frame)

lemma closeServer_control_only: "control_only s (closeServer b now s)"
  by (simp add: closeServer_eq control_only_def drain_sessions_frame)

lemma closeServer_rl_closed [simp]: "rl_closed (closeServer b now s) = rl_closed s"
  by (simp add: closeServer_eq drain_sessions_frame)

lemma unchanged_control_refl [simp]: "unchanged_control s s"
  by (simp add: unchanged_control_def)

lemma control_move_refl [simp]: "control_move now s s"
  by (simp add: control_move_def)




















section \<open>The shutdown deadline\<close>









text \<open>
  The entry that its log cuts short, left out of the theorem above: a
  \<open>terminate_process\<close> message whose \<open>deviceId\<close> is \<open>{"toString": 1}\<close> sets the flag
  and raises; the listener catches the exception. The sweep is still scheduled, no socket
  has been asked to close, and there is no deadline timer.
\<close>

lemma entry_cut_short_by_log:
  "shutdown_log_raises example_builtins (Message 1 (Some terminate_process_unprintable))
   \<and> step example_builtins (2, Message 1 (Some terminate_process_unprintable)) two_clients
       = two_clients\<lparr>isServerClosing := True\<rparr>"
  by (simp add: eval_defs two_clients_def)

section \<open>Runtime faults\<close>

text \<open>
  Claim C8. On an uncaught exception or an unhandled rejection: if \<open>isServerClosing\<close> is
  already set, the process exits at once (status \<open>0\<close>), without a second drain; if not,
  the graceful shutdown begins: the turn does exactly what \<open>handleTerminateProcess\<close>
  does when the console calls it, the flag is set, the sweep is unscheduled, and the
  process has not exited.
\<close>

theorem runtime_fault_policy:
  assumes "exited s = None" and "ev = UncaughtException \<or> ev = UnhandledRejection"
  shows "(isServerClosing s \<longrightarrow>
            step b (now, ev) s = forceExit s \<and> exited (step b (now, ev) s) = Some 0)
    \<and> (\<not> isServerClosing s \<longrightarrow>
            handleTerminateProcess b now console_origin s = (None, step b (now, ev) s)
            \<and> isServerClosing (step b (now, ev) s)
            \<and> \<not> deviceCheckInterval (step b (now, ev) s)
            \<and> exited (step b (now, ev) s) = None)"
proof -
  have "entered_draining now s (closeServer b now s)" if "\<not> isServerClosing s"
    using that by (rule closeServer_enters)
  moreover have "handleTerminateProcess b now console_origin s = (None, closeServer b now s)"
    by (simp add: closeServer_eq handleTerminateProcess_def console_origin_def)
  ultimately show ?thesis
    using assms
    by (auto simp: step_def on_uncaughtException_def on_unhandledRejection_def
        forceExit_def entered_draining_def)
qed

theorem runtime_fault_policy_witness:
  "exited one_client = None \<and> \<not> isServerClosing one_client
   \<and> handleTerminateProcess example_builtins 7 console_origin one_client
       = (None, step example_builtins (7, UncaughtException) one_client)
   \<and> isServerClosing (step example_builtins (7, UncaughtException) one_client)
   \<and> exited (step example_builtins (7, UncaughtException) one_client) = None
   \<and> exited (step example_builtins (8, UnhandledRejection)
        (step example_builtins (7, UncaughtException) one_client)) = Some 0"
proof -
  have h: "exited one_client = None" "\<not> isServerClosing one_client"
    by (simp_all add: one_client_def init_def)
  note a = runtime_fault_policy[OF h(1), of UncaughtException example_builtins 7]
  from a h have c: "handleTerminateProcess example_builtins 7 console_origin one_client
        = (None, step example_builtins (7, UncaughtException) one_client)"
      "isServerClosing (step example_builtins (7, UncaughtException) one_client)"
      "exited (step example_builtins (7, UncaughtException) one_client) = None"
    by metis+
  from runtime_fault_policy[OF c(3), of UnhandledRejection example_builtins 8] c(2)
  have "exited (step example_builtins (8, UnhandledRejection)
      (step example_builtins (7, UncaughtException) one_client)) = Some 0"
    by blast
  with h c show ?thesis by simp
qed

section \<open>What a turn does to the device map\<close>

lemma map_of_modify_device:
  "map_of (modify_device k f m) j = (if j = k then map_option f (map_of m j) else map_of m j)"
  by (induction m) (auto simp: modify_device_def)

lemma map_fst_modify_device [simp]: "map fst (modify_device k f m) = map fst m"
  by (induction m) (auto simp: modify_device_def)

lemma watermarks_move_refl [simp]: "watermarks_move rv d d"
  by (simp add: watermarks_move_def)

lemma map_move_refl [simp]: "map_move rv m m"
  by (simp add: map_move_def list_all2_same)

lemma map_move_modify:
  assumes "\<And>d. watermarks_move rv d (f d)"
  shows "map_move rv m (modify_device k f m)"
  using assms
  by (induction m) (auto simp: map_move_def modify_device_def)

lemma map_move_None_trans:
  assumes "map_move None m m1" "map_move rv m1 m2"
  shows "map_move rv m m2"
proof -
  from assms have l: "list_all2 (\<lambda>kd kd'. watermarks_move None (snd kd) (snd kd')) m m1"
      "list_all2 (\<lambda>kd kd'. watermarks_move rv (snd kd) (snd kd')) m1 m2"
    by (simp_all add: map_move_def)
  have "list_all2 (\<lambda>kd kd'. watermarks_move rv (snd kd) (snd kd')) m m2"
    using l
    by (rule list_all2_trans[rotated]) (auto simp: watermarks_move_def split: option.splits)
  with assms show ?thesis by (simp add: map_move_def)
qed

lemma map_move_lookup:
  assumes "map_move rv m m'" "map_of m k = Some d"
  shows "\<exists>d'. map_of m' k = Some d' \<and> watermarks_move rv d d'"
  using assms
proof (induction m arbitrary: m')
  case Nil
  then show ?case by simp
next
  case (Cons kd m)
  from Cons.prems(1) obtain kd' m1 where m': "m' = kd' # m1" "fst kd' = fst kd"
      "watermarks_move rv (snd kd) (snd kd')" "map_move rv m m1"
    by (cases m') (auto simp: map_move_def)
  show ?case
  proof (cases "fst kd = k")
    case True
    with Cons.prems(2) m' show ?thesis by (cases kd, cases kd') auto
  next
    case False
    with Cons.prems(2) have "map_of m k = Some d" by (cases kd) auto
    from Cons.IH[OF m'(4) this] False m' show ?thesis by (cases kd') auto
  qed
qed


lemma map_move_weaken: "map_move None m m' \<Longrightarrow> map_move rv m m'"
  using map_move_None_trans[of m m' rv m'] by simp

lemma deviceMap_broadcast [simp]: "deviceMap (broadcast s) = deviceMap s"
  by (simp add: broadcast_def)

lemma deviceMap_broadcastStartMonitor [simp]: "deviceMap (broadcastStartMonitor s) = deviceMap s"
  by (simp add: broadcastStartMonitor_def)

lemma deviceMap_handleTerminateProcess [simp]:
  "deviceMap (snd (handleTerminateProcess b now v s)) = deviceMap s"
  using handleTerminateProcess_control_only[of s b now v] by (simp add: control_only_def)

lemma deviceMap_closeServer [simp]: "deviceMap (closeServer b now s) = deviceMap s"
  using closeServer_control_only[of s b now] by (simp add: control_only_def)

lemma deviceMap_forceExit [simp]: "deviceMap (forceExit s) = deviceMap s"
  by (simp add: forceExit_def)

lemma deviceMap_rl_close [simp]: "deviceMap (rl_close b now s) = deviceMap s"
  by (simp add: rl_close_def on_rl_close_def)

lemma deviceMap_closeReadline [simp]: "deviceMap (closeReadline b now s) = deviceMap s"
  by (simp add: closeReadline_def)

lemma deviceMap_on_uncaughtException [simp]:
  "deviceMap (on_uncaughtException b now s) = deviceMap s"
  by (simp add: on_uncaughtException_def)

lemma deviceMap_on_unhandledRejection [simp]:
  "deviceMap (on_unhandledRejection b now s) = deviceMap s"
  by (simp add: on_unhandledRejection_def)

lemma deviceMap_uncaught [simp]: "deviceMap (uncaught b now r) = deviceMap (snd r)"
  by (simp add: uncaught_def split: option.splits)

lemma deviceMap_on_connection [simp]: "deviceMap (on_connection c s) = deviceMap s"
  by (simp add: on_connection_def)

lemma deviceMap_on_client_close [simp]: "deviceMap (on_client_close c s) = deviceMap s"
  by (simp add: on_client_close_def Let_def checkAllClientsClosed_def closedClients_add_def
      closeWebSocketServer_def)

lemma deviceMap_on_client_error [simp]: "deviceMap (on_client_error c s) = deviceMap s"
  by (simp add: on_client_error_def checkAllClientsClosed_def closedClients_add_def
      closeWebSocketServer_def)

lemma map_move_login_case: "map_move None (deviceMap s) (deviceMap (snd (login_case b now f s)))"
  by (simp add: login_case_def map_move_modify watermarks_move_def
      split: sum.splits option.splits prod.splits)

lemma map_move_logout_case: "map_move None (deviceMap s) (deviceMap (snd (logout_case b f s)))"
  by (simp add: logout_case_def map_move_modify watermarks_move_def
      split: sum.splits option.splits prod.splits)

lemma deviceMap_start_monitor_case [simp]:
  "deviceMap (snd (start_monitor_case b f s)) = deviceMap s"
  by (simp add: start_monitor_case_def split: sum.splits)

lemma deviceMap_handleTerminateSignal [simp]:
  "deviceMap (snd (handleTerminateSignal s)) = deviceMap s"
  by (simp add: handleTerminateSignal_def Let_def split: sum.splits)

lemma map_move_updateDevice:
  assumes "updateDevice b now data s = Inr (ok, s')"
    and "get_prop data ''vol'' = Inr w" and "parseFloat b w = Inr v"
  shows "map_move (Some v) (deviceMap s) (deviceMap s')"
  using assms
  by (auto simp: updateDevice_def map_move_modify watermarks_move_def
      split: sum.splits option.splits prod.splits bool.splits)

lemma updateDevice_Inr_vol:
  assumes "updateDevice b now data s = Inr (ok, s')"
  shows "s' = s \<or> (\<exists>w v. get_prop data ''vol'' = Inr w \<and> parseFloat b w = Inr v)"
  using assms
  by (auto simp: updateDevice_def split: sum.splits option.splits prod.splits bool.splits)

lemma map_move_volume_case:
  assumes "get_prop data ''type'' = Inr (JString ''volume'')"
  shows "map_move (reading_value b (Message c (Some data))) (deviceMap s)
    (deviceMap (snd (volume_case b now data s)))"
proof (cases "updateDevice b now data s")
  case (Inl e)
  then show ?thesis by (simp add: volume_case_def)
next
  case (Inr r)
  obtain ok s' where r: "r = (ok, s')" by (cases r)
  with Inr have u: "updateDevice b now data s = Inr (ok, s')" by simp
  have d: "deviceMap (snd (volume_case b now data s)) = deviceMap s'"
    using u by (simp add: volume_case_def)
  from updateDevice_Inr_vol[OF u] show ?thesis
  proof
    assume "s' = s"
    with d show ?thesis by simp
  next
    assume "\<exists>w v. get_prop data ''vol'' = Inr w \<and> parseFloat b w = Inr v"
    then obtain w v where w: "get_prop data ''vol'' = Inr w" "parseFloat b w = Inr v" by blast
    with assms map_move_updateDevice[OF u w] d show ?thesis by simp
  qed
qed

lemma map_move_message_try:
  "map_move (reading_value b (Message c m)) (deviceMap s)
     (deviceMap (snd (message_try b now m s)))"
proof (cases m)
  case None
  then show ?thesis by (simp add: message_try_def)
next
  case (Some data)
  show ?thesis
  proof (cases "get_prop data ''type''")
    case (Inl e)
    with Some show ?thesis by (simp add: message_try_def)
  next
    case (Inr ty)
    have "\<exists>v. get_prop data k = Inr v" for k
      using Inr by (cases data) auto
    then obtain fd fi where f: "get_prop data ''device'' = Inr fd"
        "get_prop data ''deviceId'' = Inr fi"
      by blast
    show ?thesis
    proof (cases "ty = JString ''volume''")
      case True
      with Some Inr map_move_volume_case[of data b c s now] show ?thesis
        by (simp add: message_try_def)
    next
      case False
      have "map_move None (deviceMap s) (deviceMap (snd (message_try b now m s)))"
        using Some Inr f False
        by (simp add: message_try_def map_move_login_case map_move_logout_case)
      then show ?thesis by (rule map_move_weaken)
    qed
  qed
qed

lemma map_move_sweep_devices:
  "map_move None m (fst (snd (sweep_devices now is m ch)))"
proof (induction "is" arbitrary: m ch)
  case Nil
  then show ?case by simp
next
  case (Cons i "is")
  show ?case
  proof (cases "map_of m i")
    case None
    then show ?thesis by simp
  next
    case (Some d)
    show ?thesis
    proof (cases "con d")
      case False
      with Some Cons.IH show ?thesis by simp
    next
      case True
      define c where "c = (now - lastUpdate d < DEVICE_TIMEOUT)"
      let ?m1 = "modify_device i (\<lambda>d. d\<lparr>con := c\<rparr>) m"
      have "map_move None m ?m1"
        by (rule map_move_modify) (simp add: watermarks_move_def)
      from map_move_None_trans[OF this Cons.IH] Some True show ?thesis
        by (simp add: Let_def c_def)
    qed
  qed
qed

lemma map_move_on_deviceCheck:
  "map_move None (deviceMap s) (deviceMap (snd (on_deviceCheck now s)))"
proof -
  obtain e m' ch where r: "sweep_devices now device_ids (deviceMap s) False = (e, m', ch)"
    by (cases "sweep_devices now device_ids (deviceMap s) False") auto
  with map_move_sweep_devices[of "deviceMap s" now device_ids False]
  show ?thesis
    by (simp add: on_deviceCheck_def Let_def split: option.splits)
qed

lemma map_move_set_command:
  "map_move (Some (parseFloat_text b p2)) (deviceMap s)
     (deviceMap (snd (set_command b now p1 p2 s)))"
  by (simp add: set_command_def Let_def map_move_modify watermarks_move_def
      split: sum.splits option.splits prod.splits)

lemma map_move_on_line:
  "map_move (reading_value b (Line input)) (deviceMap s)
     (deviceMap (snd (on_line b now input s)))"
  using map_move_set_command[of b _ s now]
  by (simp add: on_line_def split: list.splits)

lemma map_move_dispatch:
  "map_move (reading_value b ev) (deviceMap s) (deviceMap (dispatch b now ev s))"
proof (cases ev)
  case (Message c m)
  then show ?thesis
    using map_move_message_try[of b c m s now]
    by (simp add: on_message_def del: reading_value.simps)
next
  case (Line input)
  then show ?thesis
    using map_move_on_line[of b input s now] by (simp del: reading_value.simps)
next
  case DeviceCheck
  then show ?thesis using map_move_on_deviceCheck[of s now] by simp
next
  case CloseTimeout
  then show ?thesis by (simp add: on_close_timeout_def split: option.splits)
qed (simp_all add: wss_close_callback_def wss_close_listener_def)

lemma map_move_step:
  "map_move (reading_value b (snd te)) (deviceMap s) (deviceMap (step b te s))"
  by (simp add: step_def map_move_dispatch)


section \<open>Watermarks\<close>

lemma js_le_not_NaN: "js_le x y \<Longrightarrow> x \<noteq> NaN \<and> y \<noteq> NaN"
  by (cases x; cases y) simp_all

lemma js_le_refl: "x \<noteq> NaN \<Longrightarrow> js_le x x"
  by (cases x) simp_all

lemma js_le_trans: "js_le x y \<Longrightarrow> js_le y z \<Longrightarrow> js_le x z"
  by (cases x; cases y; cases z) simp_all

lemma js_ge_0_not_NaN: "js_ge v (Fin 0) \<Longrightarrow> v \<noteq> NaN"
  by (cases v) (simp_all add: js_ge_def)

lemma Math_max_ge: "x \<noteq> NaN \<Longrightarrow> v \<noteq> NaN \<Longrightarrow> js_le x (Math_max x v)"
  by (cases x; cases v) (simp_all add: Math_max_def)

lemma Math_min_le: "x \<noteq> NaN \<Longrightarrow> v \<noteq> NaN \<Longrightarrow> js_le (Math_min x v) x"
  by (cases x; cases v) (simp_all add: Math_min_def)

lemma watermarks_move_monotone:
  assumes "watermarks_move rv d d'" and "\<forall>v. rv = Some v \<longrightarrow> js_ge v (Fin 0)"
    and "maxv d \<noteq> NaN" and "minv d \<noteq> NaN"
  shows "js_le (maxv d) (maxv d') \<and> js_le (minv d') (minv d)"
  using assms
  by (auto simp: watermarks_move_def js_le_refl Math_max_ge Math_min_le js_ge_0_not_NaN
      split: option.splits)

lemma watermarks_run:
  assumes "\<forall>te \<in> set tes. \<forall>v. reading_value b (snd te) = Some v \<longrightarrow> js_ge v (Fin 0)"
    and "map_of (deviceMap s) k = Some d" and "maxv d \<noteq> NaN" and "minv d \<noteq> NaN"
  shows "\<exists>d'. map_of (deviceMap (run b tes s)) k = Some d'
    \<and> js_le (maxv d) (maxv d') \<and> js_le (minv d') (minv d)"
  using assms
proof (induction tes arbitrary: s d)
  case Nil
  then show ?case by (simp add: run_def js_le_refl)
next
  case (Cons te tes)
  from map_move_lookup[OF map_move_step Cons.prems(2)]
  obtain d1 where d1: "map_of (deviceMap (step b te s)) k = Some d1"
      "watermarks_move (reading_value b (snd te)) d d1"
    by blast
  from Cons.prems(1) have "\<forall>v. reading_value b (snd te) = Some v \<longrightarrow> js_ge v (Fin 0)"
    by simp
  from watermarks_move_monotone[OF d1(2) this Cons.prems(3,4)]
  have m1: "js_le (maxv d) (maxv d1)" "js_le (minv d1) (minv d)" by simp_all
  then have n1: "maxv d1 \<noteq> NaN" "minv d1 \<noteq> NaN" by (auto dest: js_le_not_NaN)
  from Cons.prems(1)
  have "\<forall>te \<in> set tes. \<forall>v. reading_value b (snd te) = Some v \<longrightarrow> js_ge v (Fin 0)"
    by simp
  from Cons.IH[OF this d1(1) n1]
  obtain d' where d': "map_of (deviceMap (run b tes (step b te s))) k = Some d'"
      "js_le (maxv d1) (maxv d')" "js_le (minv d') (minv d1)"
    by blast
  from d' m1 have "js_le (maxv d) (maxv d')" "js_le (minv d') (minv d)"
    by (blast intro: js_le_trans)+
  with d'(1) show ?case by (simp add: run_def)
qed

lemma run_append: "run b (tes1 @ tes2) s = run b tes2 (run b tes1 s)"
  by (simp add: run_def)

text \<open>
  Claim C7. Take any sequence of turns of the event loop in which every reading (every
  \<open>volume\<close> message, every \<open>set\<close> command) has a non-negative value, starting in a
  state where the watermarks of device \<open>k\<close> are numbers (as they are at start-up:
  \<open>max = 0\<close>, \<open>min = 100\<close>). At every point of the sequence the device's \<open>max\<close> is
  at least what it was at any earlier point, and its \<open>min\<close> at most: the theorem compares
  the start, the state after a prefix \<open>tes1\<close>, and the state after the whole sequence.
\<close>

theorem watermarks_monotone:
  assumes "\<forall>te \<in> set (tes1 @ tes2). \<forall>v. reading_value b (snd te) = Some v \<longrightarrow> js_ge v (Fin 0)"
    and "map_of (deviceMap s) k = Some d" and "maxv d \<noteq> NaN" and "minv d \<noteq> NaN"
  shows "\<exists>d1 d2. map_of (deviceMap (run b tes1 s)) k = Some d1
    \<and> map_of (deviceMap (run b (tes1 @ tes2) s)) k = Some d2
    \<and> js_le (maxv d) (maxv d1) \<and> js_le (maxv d1) (maxv d2)
    \<and> js_le (minv d2) (minv d1) \<and> js_le (minv d1) (minv d)"
proof -
  from assms(1)
  have h1: "\<forall>te \<in> set tes1. \<forall>v. reading_value b (snd te) = Some v \<longrightarrow> js_ge v (Fin 0)"
    and h2: "\<forall>te \<in> set tes2. \<forall>v. reading_value b (snd te) = Some v \<longrightarrow> js_ge v (Fin 0)"
    by auto
  from watermarks_run[OF h1 assms(2,3,4)]
  obtain d1 where d1: "map_of (deviceMap (run b tes1 s)) k = Some d1"
      "js_le (maxv d) (maxv d1)" "js_le (minv d1) (minv d)"
    by blast
  then have n1: "maxv d1 \<noteq> NaN" "minv d1 \<noteq> NaN" by (auto dest: js_le_not_NaN)
  from watermarks_run[OF h2 d1(1) n1]
  obtain d2 where d2: "map_of (deviceMap (run b tes2 (run b tes1 s))) k = Some d2"
      "js_le (maxv d1) (maxv d2)" "js_le (minv d2) (minv d1)"
    by blast
  with d1 show ?thesis by (simp add: run_append)
qed


theorem watermarks_monotone_witness:
  "map_of (deviceMap one_client) 2 = Some (new_device 0 2)
   \<and> maxv (new_device 0 2) \<noteq> NaN \<and> minv (new_device 0 2) \<noteq> NaN
   \<and> reading_value example_builtins
        (Message 0 (Some (volume_message 2 (JNumber (Fin 55)) (JNumber (Fin 55))))) = Some (Fin 55)
   \<and> reading_value example_builtins
        (Message 0 (Some (volume_message 2 (JNumber (Fin 80)) (JNumber (Fin 67.5))))) = Some (Fin 80)
   \<and> (\<exists>d1 d2.
        map_of (deviceMap (run example_builtins
          [(1, Message 0 (Some (volume_message 2 (JNumber (Fin 55)) (JNumber (Fin 55)))))]
          one_client)) 2 = Some d1
        \<and> map_of (deviceMap (run example_builtins
          ([(1, Message 0 (Some (volume_message 2 (JNumber (Fin 55)) (JNumber (Fin 55)))))]
           @ [(2, Message 0 (Some (volume_message 2 (JNumber (Fin 80)) (JNumber (Fin 67.5)))))])
          one_client)) 2 = Some d2
        \<and> js_le (maxv (new_device 0 2)) (maxv d1) \<and> js_le (maxv d1) (maxv d2)
        \<and> js_le (minv d2) (minv d1) \<and> js_le (minv d1) (minv (new_device 0 2)))"
  using watermarks_monotone[where b = example_builtins and s = one_client and k = 2
      and d = "new_device 0 2"
      and ?tes1.0 = "[(1, Message 0 (Some (volume_message 2 (JNumber (Fin 55)) (JNumber (Fin 55)))))]"
      and ?tes2.0 = "[(2, Message 0 (Some (volume_message 2 (JNumber (Fin 80)) (JNumber (Fin 67.5)))))]"]
  by (simp add: one_client_def init_def device_ids_def new_device_def volume_message_def
      js_ge_def)

section \<open>The liveness sweep\<close>

lemma reachable_registry: "reachable b s \<Longrightarrow> map fst (deviceMap s) = device_ids"
proof (induction rule: reachable.induct)
  case (reachable_init t0)
  show ?case by (simp add: init_def comp_def)
next
  case (reachable_step s te)
  from map_move_step[of b te s] have "map fst (deviceMap (step b te s)) = map fst (deviceMap s)"
    by (simp add: map_move_def)
  with reachable_step.IH show ?case by simp
qed

lemma con_update_same: "d\<lparr>con := con d\<rparr> = d"
  by (cases d) simp

lemma not_con_update: "\<not> con d \<Longrightarrow> d\<lparr>con := False\<rparr> = d"
  by (cases d) simp

lemma sweep_devices_exact:
  assumes "distinct is" and "\<forall>i \<in> set is. map_of m i \<noteq> None"
  shows "fst (sweep_devices now is m ch) = None
    \<and> (\<forall>k. map_of (fst (snd (sweep_devices now is m ch))) k =
          (if k \<in> set is
           then map_option (\<lambda>d. d\<lparr>con := (con d \<and> now - lastUpdate d < DEVICE_TIMEOUT)\<rparr>)
                  (map_of m k)
           else map_of m k))"
  using assms
proof (induction "is" arbitrary: m ch)
  case Nil
  then show ?case by simp
next
  case (Cons i "is")
  from Cons.prems obtain d where d: "map_of m i = Some d" by auto
  from Cons.prems have di: "distinct is" "i \<notin> set is" by simp_all
  show ?case
  proof (cases "con d")
    case False
    from Cons.prems have "\<forall>j \<in> set is. map_of m j \<noteq> None" by simp
    from Cons.IH[OF di(1) this, of ch] d False di(2) show ?thesis
      by (auto simp: not_con_update)
  next
    case True
    define c where "c = (now - lastUpdate d < DEVICE_TIMEOUT)"
    let ?m1 = "modify_device i (\<lambda>d. d\<lparr>con := c\<rparr>) m"
    from Cons.prems have "\<forall>j \<in> set is. map_of ?m1 j \<noteq> None"
      by (auto simp: map_of_modify_device)
    from Cons.IH[OF di(1) this, of "if c \<noteq> con d then True else ch"] d True di(2)
    show ?thesis
      by (auto simp: Let_def c_def map_of_modify_device)
  qed
qed

text \<open>
  Claim C2, as amended. At every scheduled tick of the sweep (the interval timer is set,
  the process runs), for each of the six devices: after the tick the device is online
  exactly when it was online before and either \<open>isServerClosing\<close> is set or
  \<open>now - lastUpdate < DEVICE_TIMEOUT\<close> (10000 ms); nothing else of the device changes. So
  the sweep turns \<open>con\<close> from true to false exactly when \<open>now - lastUpdate \<ge> 10000\<close>
  and \<open>isServerClosing\<close> is false, never turns it from false to true, and a device
  updated at time \<open>t\<close> is still online after every sweep before \<open>t + 10000\<close>.
\<close>

theorem sweep_demotes_exactly:
  assumes "reachable b s" and "exited s = None" and "deviceCheckInterval s"
    and "i \<in> set device_ids"
  shows "\<exists>d. map_of (deviceMap s) i = Some d
    \<and> map_of (deviceMap (step b (now, DeviceCheck) s)) i
        = Some (d\<lparr>con := (con d
                   \<and> (isServerClosing s \<or> now - lastUpdate d < DEVICE_TIMEOUT))\<rparr>)"
proof -
  from reachable_registry[OF assms(1)]
  have k: "map fst (deviceMap s) = device_ids" .
  have ex: "\<forall>j \<in> set device_ids. map_of (deviceMap s) j \<noteq> None"
  proof
    fix j assume "j \<in> set device_ids"
    with k have "j \<in> fst ` set (deviceMap s)" by (metis set_map)
    then show "map_of (deviceMap s) j \<noteq> None" by (simp add: map_of_eq_None_iff)
  qed
  with assms(4) obtain d where d: "map_of (deviceMap s) i = Some d" by auto
  show ?thesis
  proof (cases "isServerClosing s")
    case True
    with assms(2,3) have "step b (now, DeviceCheck) s = s"
      by (simp add: step_def on_deviceCheck_def uncaught_def)
    with d True show ?thesis by (simp add: con_update_same)
  next
    case False
    have di: "distinct device_ids" by (simp add: device_ids_def)
    note sw = sweep_devices_exact[OF di ex, of now False]
    obtain e m' ch where r: "sweep_devices now device_ids (deviceMap s) False = (e, m', ch)"
      by (cases "sweep_devices now device_ids (deviceMap s) False") auto
    with sw have e: "e = None"
      and m': "map_of m' i = Some (d\<lparr>con := (con d \<and> now - lastUpdate d < DEVICE_TIMEOUT)\<rparr>)"
      using assms(4) d by simp_all
    have "deviceMap (step b (now, DeviceCheck) s) = m'"
      using assms(2,3) False r e by (simp add: step_def on_deviceCheck_def Let_def)
    with d m' False show ?thesis by simp
  qed
qed

theorem sweep_demotes_exactly_witness:
  "reachable example_builtins
     (run example_builtins [(0, Connection 0), (1, Message 0 (Some (login_message 3)))] (init 0))
   \<and> map_of (deviceMap (step example_builtins (10000, DeviceCheck)
        (run example_builtins [(0, Connection 0), (1, Message 0 (Some (login_message 3)))]
          (init 0)))) 3
      = Some ((new_device 0 3)\<lparr>con := True, lastUpdate := 1\<rparr>)
   \<and> map_of (deviceMap (step example_builtins (10001, DeviceCheck)
        (run example_builtins [(0, Connection 0), (1, Message 0 (Some (login_message 3)))]
          (init 0)))) 3
      = Some ((new_device 0 3)\<lparr>con := False, lastUpdate := 1\<rparr>)
   \<and> reachable example_builtins
     (run example_builtins [(0, Connection 0), (1, Message 0 (Some (login_message 3))),
        (2, Message 0 (Some terminate_process_unprintable))] (init 0))
   \<and> isServerClosing
     (run example_builtins [(0, Connection 0), (1, Message 0 (Some (login_message 3))),
        (2, Message 0 (Some terminate_process_unprintable))] (init 0))
   \<and> map_of (deviceMap (step example_builtins (10001, DeviceCheck)
        (run example_builtins [(0, Connection 0), (1, Message 0 (Some (login_message 3))),
           (2, Message 0 (Some terminate_process_unprintable))] (init 0)))) 3
      = Some ((new_device 0 3)\<lparr>con := True, lastUpdate := 1\<rparr>)"
proof -
  let ?s = "run example_builtins
    [(0, Connection 0), (1, Message 0 (Some (login_message 3)))] (init 0)"
  let ?z = "run example_builtins
    [(0, Connection 0), (1, Message 0 (Some (login_message 3))),
     (2, Message 0 (Some terminate_process_unprintable))] (init 0)"
  have r: "reachable example_builtins ?s"
    by (simp add: run_def reachable.intros)
  have v: "map_of (deviceMap ?s) 3 = Some ((new_device 0 3)\<lparr>con := True, lastUpdate := 1\<rparr>)"
      "exited ?s = None" "deviceCheckInterval ?s" "\<not> isServerClosing ?s"
    by (simp_all add: eval_defs)
  have i: "3 \<in> set device_ids" by (simp add: device_ids_def)
  from sweep_demotes_exactly[OF r v(2,3) i, of 10000] v(1,4)
  have a: "map_of (deviceMap (step example_builtins (10000, DeviceCheck) ?s)) 3
      = Some ((new_device 0 3)\<lparr>con := True, lastUpdate := 1\<rparr>)"
    by (auto simp: DEVICE_TIMEOUT_def new_device_def)
  from sweep_demotes_exactly[OF r v(2,3) i, of 10001] v(1,4)
  have b: "map_of (deviceMap (step example_builtins (10001, DeviceCheck) ?s)) 3
      = Some ((new_device 0 3)\<lparr>con := False, lastUpdate := 1\<rparr>)"
    by (auto simp: DEVICE_TIMEOUT_def new_device_def)
  have rz: "reachable example_builtins ?z"
    by (simp add: run_def reachable.intros)
  have vz: "map_of (deviceMap ?z) 3 = Some ((new_device 0 3)\<lparr>con := True, lastUpdate := 1\<rparr>)"
      "exited ?z = None" "deviceCheckInterval ?z" "isServerClosing ?z"
    by (simp_all add: eval_defs)
  from sweep_demotes_exactly[OF rz vz(2,3) i, of 10001] vz(1,4)
  have c: "map_of (deviceMap (step example_builtins (10001, DeviceCheck) ?z)) 3
      = Some ((new_device 0 3)\<lparr>con := True, lastUpdate := 1\<rparr>)"
    by (auto simp: new_device_def)
  from r a b rz vz(4) c show ?thesis by simp
qed

text \<open>
  Claim C2 as stated fails at a tick that finds \<open>isServerClosing\<close> set: it returns at
  once. Such a tick is scheduled after a \<open>terminate_process\<close> message whose entry log
  raises: the flag is set and the interval timer is not cleared. Device 3, logged in at
  time 1, is still online after the tick at time 20000.
\<close>

theorem sweep_skipped_when_closing:
  "deviceCheckInterval (run example_builtins
      [(0, Connection 0), (1, Message 0 (Some (login_message 3))),
       (2, Message 0 (Some terminate_process_unprintable))] (init 0))
   \<and> exited (run example_builtins
      [(0, Connection 0), (1, Message 0 (Some (login_message 3))),
       (2, Message 0 (Some terminate_process_unprintable))] (init 0)) = None
   \<and> map_of (deviceMap (run example_builtins
      [(0, Connection 0), (1, Message 0 (Some (login_message 3))),
       (2, Message 0 (Some terminate_process_unprintable))] (init 0))) 3
      = Some ((new_device 0 3)\<lparr>con := True, lastUpdate := 1\<rparr>)
   \<and> DEVICE_TIMEOUT \<le> 20000 - 1
   \<and> map_of (deviceMap (run example_builtins
      [(0, Connection 0), (1, Message 0 (Some (login_message 3))),
       (2, Message 0 (Some terminate_process_unprintable)),
       (20000, DeviceCheck)] (init 0))) 3
      = Some ((new_device 0 3)\<lparr>con := True, lastUpdate := 1\<rparr>)"
  by (simp add: eval_defs DEVICE_TIMEOUT_def)

section \<open>Readings that are not numbers\<close>

lemma reading_within_watermarks:
  assumes "v \<noteq> NaN" and "maxv d \<noteq> NaN" and "minv d \<noteq> NaN"
  shows "level_within_watermarks
    (d\<lparr>vol := v, avg := a, maxv := Math_max (maxv d) v, minv := Math_min (minv d) v,
       con := c, lastUpdate := t\<rparr>)"
  using assms
  by (cases v; cases "maxv d"; cases "minv d")
    (simp_all add: level_within_watermarks_def Math_max_def Math_min_def)

text \<open>
  Claim C6 says that once a reading has been recorded for a device, \<open>min \<le> vol \<le> max\<close>
  holds and keeps holding. The lemma above is why it holds for readings that are numbers.
  The \<open>volume\<close> path, unlike the \<open>set\<close> command, accepts a reading that is not one: a
  \<open>volume\<close> message for device 1 without a \<open>vol\<close> field is recorded (the update succeeds
  and is broadcast) with \<open>vol\<close>, \<open>max\<close> and \<open>min\<close> all \<open>NaN\<close>, and no later reading
  brings the watermarks back: the invariant is false from then on.
\<close>

theorem nan_reading_breaks_level_bounds:
  "map_of (deviceMap (run example_builtins
      [(1, Message 0 (Some (volume_message_without_vol 1 (JNumber (Fin 50)))))] one_client)) 1
     = Some \<lparr>deviceId = 1, vol = NaN, avg = JNumber (Fin 50), maxv = NaN, minv = NaN,
             con = True, lastUpdate = 1\<rparr>
   \<and> \<not> level_within_watermarks
         \<lparr>deviceId = 1, vol = NaN, avg = JNumber (Fin 50), maxv = NaN, minv = NaN,
          con = True, lastUpdate = 1\<rparr>
   \<and> map_of (deviceMap (run example_builtins
      [(1, Message 0 (Some (volume_message_without_vol 1 (JNumber (Fin 50))))),
       (2, Message 0 (Some (volume_message 1 (JNumber (Fin 40)) (JNumber (Fin 45)))))]
      one_client)) 1
     = Some \<lparr>deviceId = 1, vol = Fin 40, avg = JNumber (Fin 45), maxv = NaN, minv = NaN,
             con = True, lastUpdate = 2\<rparr>
   \<and> \<not> level_within_watermarks
         \<lparr>deviceId = 1, vol = Fin 40, avg = JNumber (Fin 45), maxv = NaN, minv = NaN,
          con = True, lastUpdate = 2\<rparr>"
  by (simp add: eval_defs level_within_watermarks_def)

section \<open>The termination report\<close>

lemma device_stats_error: "device_stats i d = Inl e \<Longrightarrow> e = TypeError"
  by (simp add: device_stats_def split: jsval.splits)

lemma device_stats_not_number: "\<forall>n. avg d \<noteq> JNumber n \<Longrightarrow> device_stats i d = Inl TypeError"
  by (cases "avg d") (simp_all add: device_stats_def)

lemma collect_stats_raises:
  assumes "k \<in> set is" and "map_of m k = Some d" and "\<forall>n. avg d \<noteq> JNumber n"
  shows "collect_stats m is = Inl TypeError"
  using assms(1)
proof (induction "is")
  case Nil
  then show ?case by simp
next
  case (Cons i "is")
  show ?case
  proof (cases "map_of m i")
    case None
    then show ?thesis by simp
  next
    case (Some di)
    show ?thesis
    proof (cases "device_stats i di")
      case (Inl e)
      with Some device_stats_error[OF Inl] show ?thesis by simp
    next
      case (Inr st)
      have "i \<noteq> k"
      proof
        assume "i = k"
        with Some assms(2) have "di = d" by simp
        with Inr device_stats_not_number[OF assms(3), of i] show False by simp
      qed
      with Cons.prems have "k \<in> set is" by simp
      with Cons.IH Some Inr show ?thesis by simp
    qed
  qed
qed

lemma handleTerminateSignal_raises:
  assumes "\<not> isTerminated s" and "k \<in> set device_ids" and "map_of (deviceMap s) k = Some d"
    and "\<forall>n. avg d \<noteq> JNumber n"
  shows "handleTerminateSignal s = (Some TypeError, s\<lparr>isTerminated := True\<rparr>)"
  using assms(1) collect_stats_raises[OF assms(2,3,4)]
  by (simp add: handleTerminateSignal_def)

lemma handleTerminateSignal_twice:
  "handleTerminateSignal (snd (handleTerminateSignal s)) = (None, snd (handleTerminateSignal s))"
  by (simp add: handleTerminateSignal_def Let_def split: sum.splits)

lemma collect_stats_length: "collect_stats m is = Inr sts \<Longrightarrow> length sts = length is"
  by (induction "is" arbitrary: sts) (auto split: option.splits sum.splits)

lemma handleTerminateSignal_reports:
  assumes "\<not> isTerminated s" and "collect_stats (deviceMap s) device_ids = Inr sts"
  shows "handleTerminateSignal s =
      (None, s\<lparr>isTerminated := True, sent := sent s @ [(EndStatistics sts, open_clients s)]\<rparr>)"
    and "length sts = 6"
proof -
  show "handleTerminateSignal s =
      (None, s\<lparr>isTerminated := True, sent := sent s @ [(EndStatistics sts, open_clients s)]\<rparr>)"
    using assms by (simp add: handleTerminateSignal_def open_clients_def)
  show "length sts = 6"
    using collect_stats_length[OF assms(2)] by (simp add: device_ids_def)
qed

text \<open>
  Claim C4 says that the first invocation of the reporter broadcasts one
  \<open>end_statistics\<close> event and every later one is a no-op. The lemmas above are the
  claim for a table whose six averages are numbers. After a \<open>volume\<close> message with the
  average \<open>"x"\<close>, the first \<open>terminate\<close> sets \<open>isTerminated\<close> and raises before it
  sends anything, and the second is a no-op: no \<open>end_statistics\<close> is ever broadcast.
\<close>

theorem report_lost_when_avg_not_number:
  "fst (handleTerminateSignal (run example_builtins
      [(1, Message 0 (Some (volume_message 1 (JNumber (Fin 5)) (JString ''x''))))] one_client))
     = Some TypeError
   \<and> isTerminated (run example_builtins
      [(1, Message 0 (Some (volume_message 1 (JNumber (Fin 5)) (JString ''x'')))),
       (2, Message 0 (Some terminate_message))] one_client)
   \<and> filter is_end_statistics (map fst (sent (run example_builtins
      [(1, Message 0 (Some (volume_message 1 (JNumber (Fin 5)) (JString ''x'')))),
       (2, Message 0 (Some terminate_message)),
       (3, Message 0 (Some terminate_message))] one_client))) = []"
  by (simp add: eval_defs)

section \<open>An average that is not a number\<close>

lemma guard_accepts_key:
  assumes "k \<in> set device_ids"
  shows "updateDevice_rejects b (JNumber (Fin (real k))) = Inr False"
  using assms by (simp add: updateDevice_rejects_def js_gt_def set_device_ids)

lemma updateDevice_accepts:
  assumes "get_prop data ''deviceId'' = Inr (JNumber (Fin (real k)))" and "k \<in> set device_ids"
    and "map_of (deviceMap s) k = Some d"
    and "get_prop data ''vol'' = Inr w" and "parseFloat b w = Inr v"
    and "get_prop data ''avg'' = Inr a"
  shows "updateDevice b now data s =
    Inr (True, s\<lparr>deviceMap := modify_device k
      (\<lambda>d. d\<lparr>vol := v, avg := a, maxv := Math_max (maxv d) v, minv := Math_min (minv d) v,
              con := True, lastUpdate := now\<rparr>) (deviceMap s)\<rparr>)"
  using assms guard_accepts_key[OF assms(2), of b]
  by (simp add: updateDevice_def deviceMap_get_val_def deviceMap_get_def)

lemma terminate_turn_caught:
  assumes "exited s = None" and "\<not> isServerClosing s" and "\<not> isTerminated s"
    and "k \<in> set device_ids" and "map_of (deviceMap s) k = Some d"
    and "\<forall>n. avg d \<noteq> JNumber n"
    and "get_prop tdata ''type'' = Inr (JString ''terminate'')"
    and "c \<in> fst ` set (clients s)"
  shows "handleTerminateSignal s = (Some TypeError, s\<lparr>isTerminated := True\<rparr>)"
    and "step b (now, Message c (Some tdata)) s = s\<lparr>isTerminated := True\<rparr>"
proof -
  from handleTerminateSignal_raises[OF assms(3,4,5,6)]
  show h: "handleTerminateSignal s = (Some TypeError, s\<lparr>isTerminated := True\<rparr>)" .
  show "step b (now, Message c (Some tdata)) s = s\<lparr>isTerminated := True\<rparr>"
    using assms(1,2,7,8) h
    by (simp add: step_def uncaught_def on_message_def message_try_def)
qed

text \<open>
  Claim C10, as amended. The \<open>volume\<close> path stores \<open>data.avg\<close> as it came: a
  \<open>volume\<close> message for one of the devices \<open>1..6\<close> whose \<open>vol\<close> field \<open>parseFloat\<close>
  accepts leaves its \<open>avg\<close> field, whatever it is, in the device. For some such message
  (for each whose \<open>avg\<close> is not a number) a later \<open>terminate\<close>, arriving from a
  connected client at any later point at which that value is still stored, the reporter
  has not run and the server is not closing, makes the reporter raise at \<open>avg.toFixed(2)\<close>; the exception leaves the
  reporter, with \<open>isTerminated\<close> already set, and is caught by the \<open>try\<close> of the
  message listener: the turn ends with the flag set and nothing else changed, so nothing
  is sent, the server is not closing and the process runs on.
\<close>

theorem non_numeric_avg_fault_is_caught:
  assumes "exited s = None" and "\<not> isServerClosing s" and "c \<in> fst ` set (clients s)"
    and "get_prop data ''type'' = Inr (JString ''volume'')"
    and "get_prop data ''deviceId'' = Inr (JNumber (Fin (real k)))" and "k \<in> set device_ids"
    and "map_of (deviceMap s) k = Some d"
    and "get_prop data ''vol'' = Inr w" and "parseFloat b w = Inr v"
    and "get_prop data ''avg'' = Inr a" and "\<forall>n. a \<noteq> JNumber n"
    and "get_prop tdata ''type'' = Inr (JString ''terminate'')"
  shows "map_of (deviceMap (step b (t1, Message c (Some data)) s)) k
      = Some (d\<lparr>vol := v, avg := a, maxv := Math_max (maxv d) v,
                minv := Math_min (minv d) v, con := True, lastUpdate := t1\<rparr>)
    \<and> (\<forall>tes d2.
          exited (run b tes (step b (t1, Message c (Some data)) s)) = None
          \<and> \<not> isServerClosing (run b tes (step b (t1, Message c (Some data)) s))
          \<and> \<not> isTerminated (run b tes (step b (t1, Message c (Some data)) s))
          \<and> c' \<in> fst ` set (clients (run b tes (step b (t1, Message c (Some data)) s)))
          \<and> map_of (deviceMap (run b tes (step b (t1, Message c (Some data)) s))) k = Some d2
          \<and> avg d2 = a
          \<longrightarrow>
          handleTerminateSignal (run b tes (step b (t1, Message c (Some data)) s))
            = (Some TypeError,
               (run b tes (step b (t1, Message c (Some data)) s))\<lparr>isTerminated := True\<rparr>)
          \<and> step b (t2, Message c' (Some tdata)) (run b tes (step b (t1, Message c (Some data)) s))
            = (run b tes (step b (t1, Message c (Some data)) s))\<lparr>isTerminated := True\<rparr>)"
proof -
  let ?f = "\<lambda>d. d\<lparr>vol := v, avg := a, maxv := Math_max (maxv d) v,
      minv := Math_min (minv d) v, con := True, lastUpdate := t1\<rparr>"
  let ?s1 = "step b (t1, Message c (Some data)) s"
  have u: "updateDevice b t1 data s
      = Inr (True, s\<lparr>deviceMap := modify_device k ?f (deviceMap s)\<rparr>)"
    using assms(5,6,7,8,9,10) by (rule updateDevice_accepts)
  have s1: "?s1 = broadcast (s\<lparr>deviceMap := modify_device k ?f (deviceMap s)\<rparr>)"
    using assms(1,2,3,4) u
    by (simp add: step_def uncaught_def on_message_def message_try_def volume_case_def)
  have m: "map_of (deviceMap ?s1) k = Some (?f d)"
    using assms(7) by (simp add: s1 map_of_modify_device)
  have "handleTerminateSignal (run b tes ?s1)
        = (Some TypeError, (run b tes ?s1)\<lparr>isTerminated := True\<rparr>)
      \<and> step b (t2, Message c' (Some tdata)) (run b tes ?s1)
        = (run b tes ?s1)\<lparr>isTerminated := True\<rparr>"
    if h: "exited (run b tes ?s1) = None" "\<not> isServerClosing (run b tes ?s1)"
      "\<not> isTerminated (run b tes ?s1)" "c' \<in> fst ` set (clients (run b tes ?s1))"
      "map_of (deviceMap (run b tes ?s1)) k = Some d2" "avg d2 = a"
    for tes d2
  proof -
    from h(6) assms(11) have "\<forall>n. avg d2 \<noteq> JNumber n" by simp
    from terminate_turn_caught[OF h(1,2,3) assms(6) h(5) this assms(12) h(4)]
    show ?thesis by simp
  qed
  with m show ?thesis by blast
qed

theorem non_numeric_avg_fault_is_caught_witness:
  "map_of (deviceMap two_clients) 2 = Some (new_device 0 2)
   \<and> parseFloat example_builtins (JNumber (Fin 5)) = Inr (Fin 5)
   \<and> map_of (deviceMap (step example_builtins
        (1, Message 0 (Some (volume_message 2 (JNumber (Fin 5)) (JString ''n/a'')))) two_clients)) 2
      = Some ((new_device 0 2)\<lparr>vol := Fin 5, avg := JString ''n/a'', maxv := Fin 5,
                minv := Fin 5, con := True, lastUpdate := 1\<rparr>)
   \<and> handleTerminateSignal (run example_builtins [(2, Message 1 (Some (login_message 3)))]
        (step example_builtins
          (1, Message 0 (Some (volume_message 2 (JNumber (Fin 5)) (JString ''n/a''))))
          two_clients))
      = (Some TypeError, (run example_builtins [(2, Message 1 (Some (login_message 3)))]
        (step example_builtins
          (1, Message 0 (Some (volume_message 2 (JNumber (Fin 5)) (JString ''n/a''))))
          two_clients))\<lparr>isTerminated := True\<rparr>)
   \<and> step example_builtins (3, Message 1 (Some terminate_message))
        (run example_builtins [(2, Message 1 (Some (login_message 3)))]
          (step example_builtins
            (1, Message 0 (Some (volume_message 2 (JNumber (Fin 5)) (JString ''n/a''))))
            two_clients))
      = (run example_builtins [(2, Message 1 (Some (login_message 3)))]
          (step example_builtins
            (1, Message 0 (Some (volume_message 2 (JNumber (Fin 5)) (JString ''n/a''))))
            two_clients))\<lparr>isTerminated := True\<rparr>"
proof -
  let ?data = "volume_message 2 (JNumber (Fin 5)) (JString ''n/a'')"
  let ?s1 = "step example_builtins (1, Message 0 (Some ?data)) two_clients"
  let ?tes = "[(2::int, Message 1 (Some (login_message 3)))]"
  let ?d2 = "(new_device 0 2)\<lparr>vol := Fin 5, avg := JString ''n/a'', maxv := Fin 5,
      minv := Fin 5, con := True, lastUpdate := 1\<rparr>"
  have h: "exited two_clients = None" "\<not> isServerClosing two_clients"
      "0 \<in> fst ` set (clients two_clients)"
      "get_prop ?data ''type'' = Inr (JString ''volume'')"
      "get_prop ?data ''deviceId'' = Inr (JNumber (Fin (real 2)))" "2 \<in> set device_ids"
      "map_of (deviceMap two_clients) 2 = Some (new_device 0 2)"
      "get_prop ?data ''vol'' = Inr (JNumber (Fin 5))"
      "parseFloat example_builtins (JNumber (Fin 5)) = Inr (Fin 5)"
      "get_prop ?data ''avg'' = Inr (JString ''n/a'')" "\<forall>n. JString ''n/a'' \<noteq> JNumber n"
      "get_prop terminate_message ''type'' = Inr (JString ''terminate'')"
    by (simp_all add: two_clients_def init_def device_ids_def volume_message_def
        terminate_message_def)
  note t = non_numeric_avg_fault_is_caught[OF h, where ?t1.0 = 1 and c' = 1 and ?t2.0 = 3]
  have r: "exited (run example_builtins ?tes ?s1) = None"
      "\<not> isServerClosing (run example_builtins ?tes ?s1)"
      "\<not> isTerminated (run example_builtins ?tes ?s1)"
      "1 \<in> fst ` set (clients (run example_builtins ?tes ?s1))"
      "map_of (deviceMap (run example_builtins ?tes ?s1)) 2 = Some ?d2"
      "avg ?d2 = JString ''n/a''"
    by (simp_all add: eval_defs two_clients_def)
  from t have a: "map_of (deviceMap ?s1) 2 = Some ?d2"
    by (simp add: Math_max_def Math_min_def new_device_def)
  from t r have "handleTerminateSignal (run example_builtins ?tes ?s1)
        = (Some TypeError, (run example_builtins ?tes ?s1)\<lparr>isTerminated := True\<rparr>)
      \<and> step example_builtins (3, Message 1 (Some terminate_message))
          (run example_builtins ?tes ?s1)
        = (run example_builtins ?tes ?s1)\<lparr>isTerminated := True\<rparr>"
    by blast
  with h(7,9) a show ?thesis by simp
qed

text \<open>
  Claim C10 as stated fails: with the average \<open>null\<close> stored for device 1, the reporter
  raises, but after the \<open>terminate\<close> message the server is not closing and has not exited:
  the handler of uncaught exceptions did not run.
\<close>

theorem caught_fault_counterexample:
  "fst (handleTerminateSignal (run example_builtins
      [(1, Message 0 (Some (volume_message 1 (JNumber (Fin 5)) JNull)))] one_client))
     = Some TypeError
   \<and> \<not> isServerClosing (run example_builtins
      [(1, Message 0 (Some (volume_message 1 (JNumber (Fin 5)) JNull))),
       (2, Message 0 (Some terminate_message))] one_client)
   \<and> exited (run example_builtins
      [(1, Message 0 (Some (volume_message 1 (JNumber (Fin 5)) JNull))),
       (2, Message 0 (Some terminate_message))] one_client) = None"
  by (simp add: eval_defs)


end
